theory Spec2Isabelle
  imports Main "HOL-Library.AList"
begin

section \<open>Silktide Consent Manager: the consent state machine\<close>

text \<open>
  A shallow embedding of the consent core of \<^verbatim>\<open>silktide-consent-manager.js\<close>:
  the guarded \<^verbatim>\<open>localStorage\<close> helpers, the key builders with their lazy migration,
  the per-category consent store, \<^verbatim>\<open>batchUpdateConsents\<close>, \<^verbatim>\<open>handleConsentChoice\<close>
  and \<^verbatim>\<open>getAcceptedConsents\<close>. Methods whose JavaScript name starts with an
  underscore keep the name without it. The DOM of the banner and of the modal is not
  modelled; the script elements of the document are, since script injection reads them.
\<close>

subsection \<open>Values, exceptions and observable effects\<close>

text \<open>
  The JavaScript values that flow through the consent code: \<^verbatim>\<open>undefined\<close> (a key missing
  from the requested-state object), \<^verbatim>\<open>null\<close> (no stored choice), the two booleans, and
  objects and functions, of which the model keeps only the text that \<^verbatim>\<open>toString()\<close>
  gives. Objects reach the consent code through the members that a plain object inherits
  from \<^verbatim>\<open>Object.prototype\<close>. Strict equality \<^verbatim>\<open>===\<close> between a stored choice and a
  requested state is equality of the datatype: a stored choice is \<^verbatim>\<open>null\<close> or a boolean.
\<close>

datatype jsval = Undefined | Null | JBool bool | JObject string

fun truthy :: "jsval \<Rightarrow> bool" where
  "truthy (JBool b) = b"
| "truthy Undefined = False"
| "truthy Null = False"
| "truthy (JObject s) = True"

datatype error =
    ConfigError string
  | StorageException string
  | TypeError string
  | SyntaxError string
  | HostError string

text \<open>
  A function supplied by the host page (a callback of the configuration) either completes
  or throws; what it does besides is outside the model.
\<close>

datatype hostFn = Completes | Raises

text \<open>
  Everything the code does to its environment is appended to a trace: the successful
  mutations of \<^verbatim>\<open>localStorage\<close>, console output, the calls of \<^verbatim>\<open>gtag\<close> and of
  \<^verbatim>\<open>window.silktide\<close>, pushes on \<^verbatim>\<open>window.dataLayer\<close>, injected script elements, the
  callbacks of the configuration and the reload timer.
\<close>

datatype effect =
    LsSet string string
  | LsRemove string
  | ConsoleWarn string
  | ConsoleLog string
  | Gtag "(string \<times> string) list"
  | Silktide string
  | DataLayerPush string
  | InjectScript string string
  | OnAccept string
  | OnReject string
  | OnAcceptAll
  | OnRejectAll
  | ReloadTimer nat

text \<open>
  The world holds the contents of \<^verbatim>\<open>localStorage\<close> and says which storage calls throw,
  whether \<^verbatim>\<open>gtag\<close> and \<^verbatim>\<open>window.silktide\<close> are functions, and what the document does:
  \<open>docScripts\<close> is the \<^verbatim>\<open>src\<close> attribute of every script element, and
  \<open>querySelectorScript w url srcs\<close> is the outcome of the call of
  \<^verbatim>\<open>document.querySelector\<close> for a script with the source \<open>url\<close> in a document whose
  scripts have the sources \<open>srcs\<close>: \<open>None\<close> when the text is not a valid selector and
  the call throws a \<^verbatim>\<open>SyntaxError\<close> (a URL holding a double quote), otherwise whether an
  element is found. The functions \<^verbatim>\<open>gtag\<close> and \<^verbatim>\<open>window.silktide\<close>, the push on
  \<^verbatim>\<open>window.dataLayer\<close> and the console are taken to return.
\<close>

record world =
  storage :: "string \<rightharpoonup> string"
  getThrows :: "string \<Rightarrow> bool"
  setThrows :: "string \<Rightarrow> string \<Rightarrow> bool"
  removeThrows :: "string \<Rightarrow> bool"
  gtagIsFunction :: bool
  silktideIsFunction :: bool
  docScripts :: "string list"
  querySelectorScript :: "string \<Rightarrow> string list \<Rightarrow> bool option"
  trace :: "effect list"

text \<open>
  A method either returns a value or throws; in both cases the world it leaves behind
  is kept, since a \<^verbatim>\<open>catch\<close> block sees the mutations made before the \<^verbatim>\<open>throw\<close>.
\<close>

datatype 'a outcome = Returns 'a world | Throws error world

type_synonym 'a prog = "world \<Rightarrow> 'a outcome"

definition ret :: "'a \<Rightarrow> 'a prog" where
  "ret x w = Returns x w"

definition raise :: "error \<Rightarrow> 'a prog" where
  "raise e w = Throws e w"

definition bnd :: "'a prog \<Rightarrow> ('a \<Rightarrow> 'b prog) \<Rightarrow> 'b prog" where
  "bnd m f w = (case m w of Returns x w' \<Rightarrow> f x w' | Throws e w' \<Rightarrow> Throws e w')"

definition tryCatch :: "'a prog \<Rightarrow> (error \<Rightarrow> 'a prog) \<Rightarrow> 'a prog" where
  "tryCatch m h w = (case m w of Returns x w' \<Rightarrow> Returns x w' | Throws e w' \<Rightarrow> h e w')"

definition emit :: "effect \<Rightarrow> unit prog" where
  "emit e w = Returns () (w\<lparr>trace := trace w @ [e]\<rparr>)"

definition whenP :: "bool \<Rightarrow> unit prog \<Rightarrow> unit prog" where
  "whenP c m = (if c then m else ret ())"

fun forEach :: "'a list \<Rightarrow> ('a \<Rightarrow> unit prog) \<Rightarrow> unit prog" where
  "forEach [] f w = Returns () w"
| "forEach (x # xs) f w = bnd (f x) (\<lambda>_. forEach xs f) w"

fun foldP :: "('a \<Rightarrow> 's \<Rightarrow> 's prog) \<Rightarrow> 'a list \<Rightarrow> 's \<Rightarrow> 's prog" where
  "foldP f [] s w = Returns s w"
| "foldP f (x # xs) s w = bnd (f x s) (foldP f xs) w"

subsection \<open>The browser's localStorage\<close>

text \<open>
  The raw storage API. Any call may throw (storage disabled, security policy, quota);
  which calls do is a parameter of the world. A call that throws changes nothing.
\<close>

definition localStorage_getItem :: "string \<Rightarrow> string option prog" where
  "localStorage_getItem key w =
     (if getThrows w key then Throws (StorageException ''getItem'') w
      else Returns (storage w key) w)"

definition localStorage_setItem :: "string \<Rightarrow> string \<Rightarrow> unit prog" where
  "localStorage_setItem key v w =
     (if setThrows w key v then Throws (StorageException ''setItem'') w
      else Returns () (w\<lparr>storage := (storage w)(key \<mapsto> v), trace := trace w @ [LsSet key v]\<rparr>))"

definition localStorage_removeItem :: "string \<Rightarrow> unit prog" where
  "localStorage_removeItem key w =
     (if removeThrows w key then Throws (StorageException ''removeItem'') w
      else Returns () (w\<lparr>storage := (storage w)(key := None), trace := trace w @ [LsRemove key]\<rparr>))"

subsection \<open>Configuration and instance\<close>

record scriptConfig =
  sc_url :: string
  sc_load :: string
  sc_type :: string
  sc_crossorigin :: string
  sc_integrity :: string

text \<open>
  A consent type. \<open>ct_gtag\<close> is \<open>None\<close> when the \<^verbatim>\<open>gtag\<close> property is missing (falsy),
  and otherwise the parameters normalised to an array, as the code does with
  \<^verbatim>\<open>Array.isArray(type.gtag) ? type.gtag : [type.gtag]\<close>. \<open>ct_scripts\<close> is empty when the
  \<^verbatim>\<open>scripts\<close> property is missing. The two callbacks are host functions: \<open>None\<close> when
  \<^verbatim>\<open>typeof type.onAccept === 'function'\<close> fails; a call is recorded in the trace and then
  completes or throws.
\<close>

record consentType =
  ct_id :: string
  ct_required :: bool
  ct_defaultValue :: bool
  ct_scripts :: "scriptConfig list"
  ct_gtag :: "string list option"
  ct_onAccept :: "hostFn option"
  ct_onReject :: "hostFn option"

record config =
  consentTypes :: "consentType list"
  namespace :: "string option"
  eventName :: string
  debug :: bool
  onAcceptAll :: "hostFn option"
  onRejectAll :: "hostFn option"

text \<open>The configuration object as the host page passes it, before validation.\<close>

record rawConfig =
  raw_consentTypes :: "consentType list option"
  raw_namespace :: "string option"
  raw_eventName :: "string option"
  raw_debug :: bool
  raw_onAcceptAll :: "hostFn option"
  raw_onRejectAll :: "hostFn option"

record manager =
  cfg :: config
  localStorageAvailable :: bool

definition validateConfig :: "rawConfig option \<Rightarrow> unit prog" where
  "validateConfig c =
     (case c of
        None \<Rightarrow> raise (ConfigError ''Silktide Consent Manager: config is required'')
      | Some rc \<Rightarrow>
          (case raw_consentTypes rc of
             None \<Rightarrow> raise (ConfigError ''Silktide Consent Manager: config.consentTypes must be an array'')
           | Some ts \<Rightarrow>
               if length ts = 0
               then raise (ConfigError ''Silktide Consent Manager: config.consentTypes cannot be empty'')
               else ret ()))"

subsection \<open>Guarded storage helpers\<close>

definition checkLocalStorageAvailable :: "bool prog" where
  "checkLocalStorageAvailable =
     tryCatch
       (bnd (localStorage_setItem ''__stcm_test__'' ''1'') (\<lambda>_.
        bnd (localStorage_removeItem ''__stcm_test__'') (\<lambda>_.
        ret True)))
       (\<lambda>e. bnd (emit (ConsoleWarn ''Silktide Consent Manager: localStorage is not available. Consent choices will not persist.'')) (\<lambda>_.
             ret False))"

definition getLocalStorageItem :: "manager \<Rightarrow> string \<Rightarrow> string option prog" where
  "getLocalStorageItem m key =
     (if \<not> localStorageAvailable m then ret None
      else tryCatch (localStorage_getItem key)
             (\<lambda>e. bnd (emit (ConsoleWarn ''Silktide Consent Manager: Error reading from localStorage'')) (\<lambda>_.
                   ret None)))"

definition setLocalStorageItem :: "manager \<Rightarrow> string \<Rightarrow> string \<Rightarrow> bool prog" where
  "setLocalStorageItem m key v =
     (if \<not> localStorageAvailable m then ret False
      else tryCatch (bnd (localStorage_setItem key v) (\<lambda>_. ret True))
             (\<lambda>e. bnd (emit (ConsoleWarn ''Silktide Consent Manager: Error writing to localStorage'')) (\<lambda>_.
                   ret False)))"

definition removeLocalStorageItem :: "manager \<Rightarrow> string \<Rightarrow> bool prog" where
  "removeLocalStorageItem m key =
     (if \<not> localStorageAvailable m then ret False
      else tryCatch (bnd (localStorage_removeItem key) (\<lambda>_. ret True))
             (\<lambda>e. bnd (emit (ConsoleWarn ''Silktide Consent Manager: Error removing from localStorage'')) (\<lambda>_.
                   ret False)))"

text \<open>
  The part of the constructor that the consent core depends on: the configuration is
  validated, the defaults of \<^verbatim>\<open>eventName\<close> and \<^verbatim>\<open>debug\<close> are filled in, and storage is
  probed once; the result of the probe is kept in the instance.
\<close>

definition construct :: "rawConfig option \<Rightarrow> manager prog" where
  "construct c =
     bnd (validateConfig c) (\<lambda>_.
       (case c of
          None \<Rightarrow> raise (ConfigError ''unreachable'')
        | Some rc \<Rightarrow>
            bnd checkLocalStorageAvailable (\<lambda>avail.
            ret \<lparr> cfg = \<lparr> consentTypes = (case raw_consentTypes rc of Some ts \<Rightarrow> ts | None \<Rightarrow> []),
                          namespace = raw_namespace rc,
                          eventName = (case raw_eventName rc of
                                         None \<Rightarrow> ''stcm_consent_update''
                                       | Some n \<Rightarrow> if n = [] then ''stcm_consent_update'' else n),
                          debug = raw_debug rc,
                          onAcceptAll = raw_onAcceptAll rc,
                          onRejectAll = raw_onRejectAll rc \<rparr>,
                   localStorageAvailable = avail \<rparr>)))"

subsection \<open>Key builders and the consent store\<close>

text \<open>A namespace counts only when it is a non-empty string (a truthy value).\<close>

definition buildOldConsentKey :: "manager \<Rightarrow> string \<Rightarrow> string" where
  "buildOldConsentKey m typeId =
     (let suffix = (case namespace (cfg m) of
                      None \<Rightarrow> []
                    | Some ns \<Rightarrow> if ns = [] then [] else ''_'' @ ns)
      in ''silktideCookieChoice_'' @ typeId @ suffix)"

definition buildOldHasConsentedKey :: "manager \<Rightarrow> string" where
  "buildOldHasConsentedKey m =
     (let suffix = (case namespace (cfg m) of
                      None \<Rightarrow> []
                    | Some ns \<Rightarrow> if ns = [] then [] else ''_'' @ ns)
      in ''silktideCookieBanner_InitialChoice'' @ suffix)"

definition buildConsentKey :: "manager \<Rightarrow> string \<Rightarrow> string" where
  "buildConsentKey m typeId =
     (let ns = (case namespace (cfg m) of
                  None \<Rightarrow> []
                | Some n \<Rightarrow> if n = [] then [] else n @ ''.'')
      in ''stcm.'' @ ns @ ''consent.'' @ typeId)"

definition buildHasConsentedKey :: "manager \<Rightarrow> string" where
  "buildHasConsentedKey m =
     (let ns = (case namespace (cfg m) of
                  None \<Rightarrow> []
                | Some n \<Rightarrow> if n = [] then [] else n @ ''.'')
      in ''stcm.'' @ ns @ ''hasConsented'')"

definition getConsentChoice :: "manager \<Rightarrow> string \<Rightarrow> jsval prog" where
  "getConsentChoice m typeId =
     (let newKey = buildConsentKey m typeId in
      bnd (getLocalStorageItem m newKey) (\<lambda>value0.
      bnd (if value0 = None
           then (let oldKey = buildOldConsentKey m typeId in
                 bnd (getLocalStorageItem m oldKey) (\<lambda>value1.
                 bnd (case value1 of
                        None \<Rightarrow> ret ()
                      | Some v \<Rightarrow>
                          bnd (setLocalStorageItem m newKey v) (\<lambda>_.
                          bnd (removeLocalStorageItem m oldKey) (\<lambda>_.
                          ret ()))) (\<lambda>_.
                 ret value1)))
           else ret value0) (\<lambda>value.
      ret (case value of None \<Rightarrow> Null | Some v \<Rightarrow> JBool (v = ''true'')))))"

text \<open>
  \<^verbatim>\<open>accepted.toString()\<close>: a boolean gives its name, an object its text; \<^verbatim>\<open>undefined\<close>
  and \<^verbatim>\<open>null\<close> have no properties, and reading one throws a \<^verbatim>\<open>TypeError\<close>.
\<close>

definition toString :: "jsval \<Rightarrow> string prog" where
  "toString v =
     (case v of
        JBool b \<Rightarrow> ret (if b then ''true'' else ''false'')
      | JObject s \<Rightarrow> ret s
      | Undefined \<Rightarrow> raise (TypeError ''Cannot read properties of undefined (reading 'toString')'')
      | Null \<Rightarrow> raise (TypeError ''Cannot read properties of null (reading 'toString')''))"

definition setConsentChoice :: "manager \<Rightarrow> string \<Rightarrow> jsval \<Rightarrow> unit prog" where
  "setConsentChoice m typeId accepted =
     (let newKey = buildConsentKey m typeId in
      bnd (toString accepted) (\<lambda>s.
      bnd (setLocalStorageItem m newKey s) (\<lambda>_.
      (let oldKey = buildOldConsentKey m typeId in
       bnd (getLocalStorageItem m oldKey) (\<lambda>old.
       if old \<noteq> None
       then bnd (removeLocalStorageItem m oldKey) (\<lambda>_. ret ())
       else ret ())))))"


definition setHasConsented :: "manager \<Rightarrow> unit prog" where
  "setHasConsented m =
     (let newKey = buildHasConsentedKey m in
      bnd (setLocalStorageItem m newKey ''1'') (\<lambda>_.
      (let oldKey = buildOldHasConsentedKey m in
       bnd (getLocalStorageItem m oldKey) (\<lambda>old.
       if old \<noteq> None
       then bnd (removeLocalStorageItem m oldKey) (\<lambda>_. ret ())
       else ret ()))))"

subsection \<open>Script injection\<close>

text \<open>
  An empty URL is a missing (falsy) one. The lookup of an existing script element is the
  \<^verbatim>\<open>querySelector\<close> call of the world and can throw.
\<close>

definition scriptExists :: "string \<Rightarrow> bool prog" where
  "scriptExists url w =
     (case querySelectorScript w url (docScripts w) of
        None \<Rightarrow> Throws (SyntaxError ''querySelector: not a valid selector'') w
      | Some existing \<Rightarrow> Returns existing w)"

definition appendScript :: "string \<Rightarrow> string \<Rightarrow> unit prog" where
  "appendScript url consentId w =
     Returns () (w\<lparr>docScripts := docScripts w @ [url], trace := trace w @ [InjectScript url consentId]\<rparr>)"

definition injectScript :: "scriptConfig \<Rightarrow> string \<Rightarrow> unit prog" where
  "injectScript sc consentId =
     (if sc_url sc = []
      then emit (ConsoleWarn ''Silktide Consent Manager: Script URL is required'')
      else bnd (scriptExists (sc_url sc)) (\<lambda>existing.
           if existing then ret ()
           else appendScript (sc_url sc) consentId))"

definition injectConsentScripts :: "consentType \<Rightarrow> unit prog" where
  "injectConsentScripts t = forEach (ct_scripts t) (\<lambda>sc. injectScript sc (ct_id t))"

subsection \<open>Batch update\<close>

text \<open>
  A JavaScript object used as a map: its own properties with string keys, in insertion
  order, and whether its prototype is \<^verbatim>\<open>Object.prototype\<close> (as for the literal
  \<^verbatim>\<open>{}\<close>) or \<^verbatim>\<open>null\<close>. Reading a property that the object does not own gives the
  member inherited from \<^verbatim>\<open>Object.prototype\<close>, if there is one, and \<^verbatim>\<open>undefined\<close>
  otherwise; \<^verbatim>\<open>__proto__\<close> reads as the prototype itself. Native functions are given the
  text that V8 prints for them.
\<close>

record jsobj =
  ownProps :: "(string \<times> jsval) list"
  protoLinked :: bool

definition plainObject :: "(string \<times> jsval) list \<Rightarrow> jsobj" where
  "plainObject ps = \<lparr> ownProps = ps, protoLinked = True \<rparr>"

definition nativeFunction :: "string \<Rightarrow> jsval" where
  "nativeFunction n = JObject (''function '' @ n @ ''() { [native code] }'')"

definition objectPrototype :: "string \<Rightarrow> jsval option" where
  "objectPrototype k =
     (if k = ''__proto__'' then Some (JObject ''[object Object]'')
      else if k = ''constructor'' then Some (nativeFunction ''Object'')
      else if k \<in> set [''__defineGetter__'', ''__defineSetter__'', ''hasOwnProperty'',
                         ''__lookupGetter__'', ''__lookupSetter__'', ''isPrototypeOf'',
                         ''propertyIsEnumerable'', ''toString'', ''valueOf'', ''toLocaleString'']
      then Some (nativeFunction k)
      else None)"

definition getProp :: "jsobj \<Rightarrow> string \<Rightarrow> jsval" where
  "getProp obj k =
     (case map_of (ownProps obj) k of
        Some v \<Rightarrow> v
      | None \<Rightarrow>
          if protoLinked obj
          then (case objectPrototype k of Some v \<Rightarrow> v | None \<Rightarrow> Undefined)
          else Undefined)"

text \<open>
  The assignment \<^verbatim>\<open>obj[k] = v\<close>. Every inherited member but one is a writable data
  property, so the assignment creates or updates an own property. The exception is
  \<^verbatim>\<open>__proto__\<close>, an accessor: on an object that inherits it the setter runs, which
  unlinks the prototype for \<^verbatim>\<open>null\<close>, ignores every other primitive and creates no own
  property. (An object assigned there would become the prototype; the code assigns only
  booleans, \<^verbatim>\<open>null\<close> and strings, and the model leaves the object unchanged in that case.)
\<close>

definition setProp :: "jsobj \<Rightarrow> string \<Rightarrow> jsval \<Rightarrow> jsobj" where
  "setProp obj k v =
     (if k = ''__proto__'' \<and> protoLinked obj \<and> map_of (ownProps obj) k = None
      then (case v of Null \<Rightarrow> obj\<lparr>protoLinked := False\<rparr> | _ \<Rightarrow> obj)
      else obj\<lparr>ownProps := AList.update k v (ownProps obj)\<rparr>)"

text \<open>
  The payload of the consent signal starts as \<^verbatim>\<open>{}\<close> and is only assigned strings, so
  its own entries are all there is to it, and an assignment to \<^verbatim>\<open>__proto__\<close> is ignored.
\<close>

definition setEntry :: "(string \<times> string) list \<Rightarrow> string \<Rightarrow> string \<Rightarrow> (string \<times> string) list" where
  "setEntry upd k v = (if k = ''__proto__'' then upd else AList.update k v upd)"

record change =
  ch_type :: consentType
  ch_newState :: jsval
  ch_previousState :: jsval

text \<open>The four local variables that the first pass of the batch update mutates.\<close>

record batchAcc =
  acc_changes :: "change list"
  acc_gtagConsentUpdate :: "(string \<times> string) list"
  acc_hasChanges :: bool
  acc_needsReload :: bool

definition initialAcc :: batchAcc where
  "initialAcc = \<lparr> acc_changes = [], acc_gtagConsentUpdate = [], acc_hasChanges = False, acc_needsReload = False \<rparr>"

text \<open>
  The body of the first pass once the stored choice has been read: the comparison
  \<^verbatim>\<open>newState !== previousState\<close> and the updates of the four locals.
\<close>

definition noteChange :: "jsobj \<Rightarrow> consentType \<Rightarrow> jsval \<Rightarrow> batchAcc \<Rightarrow> batchAcc" where
  "noteChange consentStates t previousState a =
     (let newState = getProp consentStates (ct_id t) in
      if newState \<noteq> previousState
      then (let wasRevoked = (previousState = JBool True \<and> newState = JBool False);
                hadScripts = (length (ct_scripts t) > 0);
                consentState = (if truthy newState then ''granted'' else ''denied'')
            in \<lparr> acc_changes = acc_changes a @
                      [\<lparr> ch_type = t, ch_newState = newState, ch_previousState = previousState \<rparr>],
                  acc_gtagConsentUpdate =
                     (case ct_gtag t of
                        None \<Rightarrow> acc_gtagConsentUpdate a
                      | Some gtagParams \<Rightarrow>
                          fold (\<lambda>param upd. setEntry upd param consentState) gtagParams
                            (acc_gtagConsentUpdate a)),
                  acc_hasChanges = True,
                  acc_needsReload = (if wasRevoked \<and> hadScripts then True else acc_needsReload a) \<rparr>)
      else a)"

definition firstPassStep :: "manager \<Rightarrow> jsobj \<Rightarrow> consentType \<Rightarrow> batchAcc \<Rightarrow> batchAcc prog" where
  "firstPassStep m consentStates t a =
     bnd (getConsentChoice m (ct_id t)) (\<lambda>previousState.
     ret (noteChange consentStates t previousState a))"

definition firstPass :: "manager \<Rightarrow> jsobj \<Rightarrow> batchAcc prog" where
  "firstPass m consentStates = foldP (firstPassStep m consentStates) (consentTypes (cfg m)) initialAcc"

text \<open>
  The two debug messages of the batch update are recorded without their leading symbol, the
  first one also without the payload that the code prints after it.
\<close>

definition typeofGtagIsFunction :: "bool prog" where
  "typeofGtagIsFunction w = Returns (gtagIsFunction w) w"

definition typeofSilktideIsFunction :: "bool prog" where
  "typeofSilktideIsFunction w = Returns (silktideIsFunction w) w"

definition sendConsentUpdate :: "manager \<Rightarrow> (string \<times> string) list \<Rightarrow> unit prog" where
  "sendConsentUpdate m gtagConsentUpdate =
     bnd typeofGtagIsFunction (\<lambda>haveGtag.
     if length (map fst gtagConsentUpdate) > 0 \<and> haveGtag
     then bnd (emit (Gtag gtagConsentUpdate)) (\<lambda>_.
          whenP (debug (cfg m)) (emit (ConsoleLog ''gtag consent updated (from user action)'')))
     else if map_of gtagConsentUpdate ''analytics_storage'' \<noteq> None
     then bnd typeofSilktideIsFunction (\<lambda>haveSilktide.
          whenP haveSilktide
            (emit (Silktide (if map_of gtagConsentUpdate ''analytics_storage'' = Some ''granted''
                             then ''consent'' else ''unconsent''))))
     else ret ())"

text \<open>
  \<^verbatim>\<open>if (typeof f === 'function') { f(); }\<close> for a callback of the configuration: the
  call is recorded, and a callback that throws is not caught.
\<close>

definition callIfFunction :: "hostFn option \<Rightarrow> effect \<Rightarrow> string \<Rightarrow> unit prog" where
  "callIfFunction f ev name =
     (case f of
        None \<Rightarrow> ret ()
      | Some Completes \<Rightarrow> emit ev
      | Some Raises \<Rightarrow> bnd (emit ev) (\<lambda>_. raise (HostError name)))"

definition runChangeCallbacks :: "change \<Rightarrow> unit prog" where
  "runChangeCallbacks c =
     (if truthy (ch_newState c)
      then bnd (injectConsentScripts (ch_type c)) (\<lambda>_.
           callIfFunction (ct_onAccept (ch_type c)) (OnAccept (ct_id (ch_type c))) ''onAccept'')
      else callIfFunction (ct_onReject (ch_type c)) (OnReject (ct_id (ch_type c))) ''onReject'')"

definition batchUpdateConsents :: "manager \<Rightarrow> jsobj \<Rightarrow> bool prog" where
  "batchUpdateConsents m consentStates =
     bnd (firstPass m consentStates) (\<lambda>a.
     if \<not> acc_hasChanges a then ret False
     else
       bnd (forEach (acc_changes a)
              (\<lambda>c. setConsentChoice m (ct_id (ch_type c)) (ch_newState c))) (\<lambda>_.
       bnd (sendConsentUpdate m (acc_gtagConsentUpdate a)) (\<lambda>_.
       bnd (emit (DataLayerPush (eventName (cfg m)))) (\<lambda>_.
       bnd (whenP (debug (cfg m))
              (emit (ConsoleLog (''GTM Event Sent: '' @ eventName (cfg m) @ '' (from user action)'')))) (\<lambda>_.
       bnd (forEach (acc_changes a) runChangeCallbacks) (\<lambda>_.
       bnd (whenP (acc_needsReload a) (emit (ReloadTimer 100))) (\<lambda>_.
       ret True)))))))"

subsection \<open>Accept all, reject all and the consent maps\<close>

definition buildConsentStates :: "consentType list \<Rightarrow> bool \<Rightarrow> jsobj" where
  "buildConsentStates ts accepted =
     fold (\<lambda>t consentStates.
             if ct_required t
             then setProp consentStates (ct_id t) (JBool True)
             else setProp consentStates (ct_id t) (JBool accepted))
       ts (plainObject [])"

text \<open>
  Reading the stored values back into the checkboxes of the modal
  (\<^verbatim>\<open>updateCheckboxState()\<close> without saving). The modal holds one checkbox per
  configured consent type, and the type of a checkbox is looked up by its id; only the
  storage reads are modelled.
\<close>

definition updateCheckboxState :: "manager \<Rightarrow> unit prog" where
  "updateCheckboxState m =
     forEach (consentTypes (cfg m))
       (\<lambda>box. case find (\<lambda>type. ct_id type = ct_id box) (consentTypes (cfg m)) of
                 None \<Rightarrow> ret ()
               | Some consentType \<Rightarrow>
                   if ct_required consentType then ret ()
                   else bnd (getConsentChoice m (ct_id box)) (\<lambda>_. ret ()))"

text \<open>
  \<^verbatim>\<open>handleConsentChoice(accepted)\<close>. The calls that only touch the banner, the backdrop,
  the modal and the icon, with their open and close callbacks, are left out.
\<close>

definition handleConsentChoice :: "manager \<Rightarrow> bool \<Rightarrow> unit prog" where
  "handleConsentChoice m accepted =
     bnd (setHasConsented m) (\<lambda>_.
     (let consentStates = buildConsentStates (consentTypes (cfg m)) accepted in
      bnd (batchUpdateConsents m consentStates) (\<lambda>_.
      bnd (if accepted \<and> onAcceptAll (cfg m) \<noteq> None
           then callIfFunction (onAcceptAll (cfg m)) OnAcceptAll ''onAcceptAll''
           else if \<not> accepted \<and> onRejectAll (cfg m) \<noteq> None
           then callIfFunction (onRejectAll (cfg m)) OnRejectAll ''onRejectAll''
           else ret ()) (\<lambda>_.
      updateCheckboxState m))))"

definition getAcceptedConsents :: "manager \<Rightarrow> jsobj prog" where
  "getAcceptedConsents m =
     foldP (\<lambda>consentType acc.
              bnd (getConsentChoice m (ct_id consentType)) (\<lambda>choice.
              ret (setProp acc (ct_id consentType) choice)))
       (consentTypes (cfg m)) (plainObject [])"

definition getRejectedConsents :: "manager \<Rightarrow> jsobj prog" where
  "getRejectedConsents m =
     foldP (\<lambda>consentType acc.
              bnd (getConsentChoice m (ct_id consentType)) (\<lambda>choice.
              ret (setProp acc (ct_id consentType) (JBool (choice = JBool False)))))
       (consentTypes (cfg m)) (plainObject [])"

subsection \<open>Notions used in the statements\<close>

text \<open>
  \<open>readItem\<close> is the value that \<open>getLocalStorageItem\<close> hands back, \<open>storedChoice\<close> the
  consent choice that \<open>getConsentChoice\<close> reports for a category (lemma
  \<open>getConsentChoice_value\<close> below), and \<open>healthy\<close> says that no storage call throws.
  \<open>extends P w w'\<close> says that \<open>w'\<close> has the fault behaviour, the integrations and the
  selector behaviour of \<open>w\<close> and that its trace is the trace of \<open>w\<close> followed by
  effects that all satisfy \<open>P\<close>.
\<close>

definition readItem :: "manager \<Rightarrow> world \<Rightarrow> string \<Rightarrow> string option" where
  "readItem m w key = (if localStorageAvailable m \<and> \<not> getThrows w key then storage w key else None)"

definition storedChoice :: "manager \<Rightarrow> world \<Rightarrow> string \<Rightarrow> jsval" where
  "storedChoice m w typeId =
     (case readItem m w (buildConsentKey m typeId) of
        Some v \<Rightarrow> JBool (v = ''true'')
      | None \<Rightarrow>
          (case readItem m w (buildOldConsentKey m typeId) of
             Some v \<Rightarrow> JBool (v = ''true'')
           | None \<Rightarrow> Null))"

definition healthy :: "world \<Rightarrow> bool" where
  "healthy w = (\<forall>k v. \<not> getThrows w k \<and> \<not> setThrows w k v \<and> \<not> removeThrows w k)"

fun finalWorld :: "'a outcome \<Rightarrow> world" where
  "finalWorld (Returns x w) = w"
| "finalWorld (Throws e w) = w"

fun isStorageEffect :: "effect \<Rightarrow> bool" where
  "isStorageEffect (LsSet k v) = True"
| "isStorageEffect (LsRemove k) = True"
| "isStorageEffect (ConsoleWarn s) = True"
| "isStorageEffect _ = False"

definition sameEnv :: "world \<Rightarrow> world \<Rightarrow> bool" where
  "sameEnv w w' =
     (getThrows w' = getThrows w \<and> setThrows w' = setThrows w \<and> removeThrows w' = removeThrows w \<and>
      gtagIsFunction w' = gtagIsFunction w \<and> silktideIsFunction w' = silktideIsFunction w \<and>
      querySelectorScript w' = querySelectorScript w)"

definition extends :: "(effect \<Rightarrow> bool) \<Rightarrow> world \<Rightarrow> world \<Rightarrow> bool" where
  "extends P w w' = (sameEnv w w' \<and> (\<exists>evs. trace w' = trace w @ evs \<and> list_all P evs))"

text \<open>The world after the legacy entry of a category has been moved to its current key.\<close>

definition migrated :: "manager \<Rightarrow> string \<Rightarrow> string \<Rightarrow> world \<Rightarrow> world" where
  "migrated m typeId v w =
     w\<lparr>storage := (storage w)(buildConsentKey m typeId \<mapsto> v, buildOldConsentKey m typeId := None),
       trace := trace w @ [LsSet (buildConsentKey m typeId) v, LsRemove (buildOldConsentKey m typeId)]\<rparr>"

text \<open>
  The categories that a batch update sees as changed, the accumulator that its first pass
  computes from the stored choices (lemma \<open>firstPass_eq\<close> below), and the state word
  that the consolidated payload holds for a signal identifier: the one of the last changed
  category that lists it.
\<close>

definition wasChanged :: "manager \<Rightarrow> jsobj \<Rightarrow> world \<Rightarrow> consentType \<Rightarrow> bool" where
  "wasChanged m consentStates w t = (getProp consentStates (ct_id t) \<noteq> storedChoice m w (ct_id t))"

definition changedTypes :: "manager \<Rightarrow> jsobj \<Rightarrow> world \<Rightarrow> consentType list" where
  "changedTypes m consentStates w = filter (wasChanged m consentStates w) (consentTypes (cfg m))"

definition firstPassAcc :: "manager \<Rightarrow> jsobj \<Rightarrow> world \<Rightarrow> consentType list \<Rightarrow> batchAcc \<Rightarrow> batchAcc" where
  "firstPassAcc m consentStates w ts a =
     fold (\<lambda>t. noteChange consentStates t (storedChoice m w (ct_id t))) ts a"





fun gtagCalls :: "effect list \<Rightarrow> (string \<times> string) list list" where
  "gtagCalls [] = []"
| "gtagCalls (Gtag p # es) = p # gtagCalls es"
| "gtagCalls (e # es) = gtagCalls es"

fun dataLayerPushes :: "effect list \<Rightarrow> string list" where
  "dataLayerPushes [] = []"
| "dataLayerPushes (DataLayerPush n # es) = n # dataLayerPushes es"
| "dataLayerPushes (e # es) = dataLayerPushes es"

fun reloadTimers :: "effect list \<Rightarrow> nat" where
  "reloadTimers [] = 0"
| "reloadTimers (ReloadTimer d # es) = Suc (reloadTimers es)"
| "reloadTimers (e # es) = reloadTimers es"

text \<open>
  \<open>sameStore\<close>: nothing of the storage or of its fault behaviour differs. The effects
  that running the callbacks of a change can add to the trace are \<open>isCallbackEffect\<close>;
  \<open>signalEffects\<close> are the effects of \<open>sendConsentUpdate\<close> (lemma
  \<open>sendConsentUpdate_eq\<close> below).
\<close>

definition sameStore :: "world \<Rightarrow> world \<Rightarrow> bool" where
  "sameStore w w' = (sameEnv w w' \<and> storage w' = storage w)"

fun isCallbackEffect :: "effect \<Rightarrow> bool" where
  "isCallbackEffect (InjectScript u i) = True"
| "isCallbackEffect (OnAccept i) = True"
| "isCallbackEffect (OnReject i) = True"
| "isCallbackEffect (ConsoleWarn s) = True"
| "isCallbackEffect _ = False"


text \<open>
  The effects of the read-triggered migration, seen from the world \<open>w\<close> in which a method
  starts: the value of a legacy key of a configured category written under the current key
  of that category, the deletion of such a legacy key and, when storage calls can throw in
  \<open>w\<close>, the warning of one that did.
\<close>

fun isMigrationEffect :: "manager \<Rightarrow> world \<Rightarrow> effect \<Rightarrow> bool" where
  "isMigrationEffect m w (LsSet k v) =
     list_ex (\<lambda>t. k = buildConsentKey m (ct_id t) \<and>
                    storage w (buildOldConsentKey m (ct_id t)) = Some v) (consentTypes (cfg m))"
| "isMigrationEffect m w (LsRemove k) =
     list_ex (\<lambda>t. k = buildOldConsentKey m (ct_id t)) (consentTypes (cfg m))"
| "isMigrationEffect m w (ConsoleWarn s) = (\<not> healthy w)"
| "isMigrationEffect m w _ = False"


definition typeReturns :: "world \<Rightarrow> consentType \<Rightarrow> bool" where
  "typeReturns w t =
     (ct_onAccept t \<noteq> Some Raises \<and> ct_onReject t \<noteq> Some Raises \<and>
      (\<forall>sc\<in>set (ct_scripts t). \<forall>srcs. querySelectorScript w (sc_url sc) srcs \<noteq> None))"

definition thirdPassReturns :: "manager \<Rightarrow> world \<Rightarrow> bool" where
  "thirdPassReturns m w = (\<forall>t\<in>set (consentTypes (cfg m)). typeReturns w t)"

fun isThirdPassError :: "error \<Rightarrow> bool" where
  "isThirdPassError (SyntaxError s) = True"
| "isThirdPassError (HostError s) = True"
| "isThirdPassError e = False"

text \<open>
  What every outcome of the third pass, or of a part of it, has in common: storage is as it
  was, the trace has grown by effects of callbacks and script injection only, and an error
  that escapes is one of the third pass.
\<close>

definition thirdPassOutcome :: "world \<Rightarrow> unit outcome \<Rightarrow> bool" where
  "thirdPassOutcome w out =
     (sameStore w (finalWorld out) \<and> extends isCallbackEffect w (finalWorld out) \<and>
      (case out of Returns x w' \<Rightarrow> True | Throws e w' \<Rightarrow> isThirdPassError e))"

subsection \<open>Example worlds and configurations\<close>

text \<open>
  In the example worlds the lookup of a script throws for a URL that holds a double quote
  and otherwise finds the script elements with that source.
\<close>

definition emptyWorld :: world where
  "emptyWorld = \<lparr> storage = Map.empty, getThrows = (\<lambda>k. False), setThrows = (\<lambda>k v. False),
                   removeThrows = (\<lambda>k. False), gtagIsFunction = True, silktideIsFunction = False,
                   docScripts = [],
                   querySelectorScript = (\<lambda>url srcs. if CHR 0x22 \<in> set url then None
                                                       else Some (url \<in> set srcs)),
                   trace = [] \<rparr>"

definition brokenWorld :: world where
  "brokenWorld = emptyWorld\<lparr> getThrows := (\<lambda>k. True), setThrows := (\<lambda>k v. True),
                             removeThrows := (\<lambda>k. True) \<rparr>"

definition flakyWorld :: world where
  "flakyWorld = emptyWorld\<lparr> getThrows := (\<lambda>k. k = ''stcm.consent.analytics''),
                            setThrows := (\<lambda>k v. k = ''stcm.consent.analytics''),
                            removeThrows := (\<lambda>k. k = ''stcm.consent.analytics'') \<rparr>"

definition plainType :: "string \<Rightarrow> consentType" where
  "plainType i = \<lparr> ct_id = i, ct_required = False, ct_defaultValue = False, ct_scripts = [],
                   ct_gtag = None, ct_onAccept = None, ct_onReject = None \<rparr>"

definition rawConfigOf :: "consentType list \<Rightarrow> rawConfig" where
  "rawConfigOf ts = \<lparr> raw_consentTypes = Some ts, raw_namespace = None, raw_eventName = None,
                      raw_debug = False, raw_onAcceptAll = None, raw_onRejectAll = None \<rparr>"

definition configOf :: "consentType list \<Rightarrow> config" where
  "configOf ts = \<lparr> consentTypes = ts, namespace = None, eventName = ''stcm_consent_update'',
                   debug = False, onAcceptAll = None, onRejectAll = None \<rparr>"

definition managerOf :: "consentType list \<Rightarrow> manager" where
  "managerOf ts = \<lparr> cfg = configOf ts, localStorageAvailable = True \<rparr>"

definition offlineManagerOf :: "consentType list \<Rightarrow> manager" where
  "offlineManagerOf ts = \<lparr> cfg = configOf ts, localStorageAvailable = False \<rparr>"

definition legacyWorld :: world where
  "legacyWorld = emptyWorld\<lparr> storage := [''silktideCookieChoice_analytics'' \<mapsto> ''true''] \<rparr>"

definition fullLegacyWorld :: world where
  "fullLegacyWorld = legacyWorld\<lparr> setThrows := (\<lambda>k v. True) \<rparr>"

definition zeroFlagWorld :: world where
  "zeroFlagWorld = emptyWorld\<lparr> storage := [''stcm.hasConsented'' \<mapsto> ''0''] \<rparr>"

definition blankLegacyFlagWorld :: world where
  "blankLegacyFlagWorld = emptyWorld\<lparr> storage := [''silktideCookieBanner_InitialChoice'' \<mapsto> ''''] \<rparr>"

definition grantedWorld :: world where
  "grantedWorld = emptyWorld\<lparr> storage := [''stcm.consent.analytics'' \<mapsto> ''true''] \<rparr>"

definition signalType :: "string \<Rightarrow> string list \<Rightarrow> consentType" where
  "signalType i ps = (plainType i)\<lparr> ct_gtag := Some ps \<rparr>"

definition adsWorld :: world where
  "adsWorld = emptyWorld\<lparr> storage := [''stcm.consent.ads'' \<mapsto> ''false'',
                                        ''stcm.consent.remarketing'' \<mapsto> ''true''] \<rparr>"

definition scriptedType :: "string \<Rightarrow> string \<Rightarrow> consentType" where
  "scriptedType i url =
     (plainType i)\<lparr> ct_scripts := [\<lparr> sc_url = url, sc_load = ''async'', sc_type = [],
                                      sc_crossorigin = [], sc_integrity = [] \<rparr>] \<rparr>"

section \<open>Properties\<close>

subsection \<open>The outcome monad and the storage helpers\<close>

lemma getLocalStorageItem_eq:
  "getLocalStorageItem m key w =
     (if localStorageAvailable m \<and> getThrows w key
      then Returns None (w\<lparr>trace := trace w @ [ConsoleWarn ''Silktide Consent Manager: Error reading from localStorage'']\<rparr>)
      else Returns (readItem m w key) w)"
  by (simp add: getLocalStorageItem_def readItem_def tryCatch_def localStorage_getItem_def
      bnd_def ret_def emit_def)

lemma setLocalStorageItem_eq:
  "setLocalStorageItem m key v w =
     (if \<not> localStorageAvailable m then Returns False w
      else if setThrows w key v
      then Returns False (w\<lparr>trace := trace w @ [ConsoleWarn ''Silktide Consent Manager: Error writing to localStorage'']\<rparr>)
      else Returns True (w\<lparr>storage := (storage w)(key \<mapsto> v), trace := trace w @ [LsSet key v]\<rparr>))"
  by (simp add: setLocalStorageItem_def tryCatch_def localStorage_setItem_def
      bnd_def ret_def emit_def)

lemma removeLocalStorageItem_eq:
  "removeLocalStorageItem m key w =
     (if \<not> localStorageAvailable m then Returns False w
      else if removeThrows w key
      then Returns False (w\<lparr>trace := trace w @ [ConsoleWarn ''Silktide Consent Manager: Error removing from localStorage'']\<rparr>)
      else Returns True (w\<lparr>storage := (storage w)(key := None), trace := trace w @ [LsRemove key]\<rparr>))"
  by (simp add: removeLocalStorageItem_def tryCatch_def localStorage_removeItem_def
      bnd_def ret_def emit_def)

lemma checkLocalStorageAvailable_eq:
  "checkLocalStorageAvailable w =
     (if setThrows w ''__stcm_test__'' ''1''
      then Returns False (w\<lparr>trace := trace w @ [ConsoleWarn ''Silktide Consent Manager: localStorage is not available. Consent choices will not persist.'']\<rparr>)
      else if removeThrows w ''__stcm_test__''
      then Returns False (w\<lparr>storage := (storage w)(''__stcm_test__'' \<mapsto> ''1''),
                            trace := trace w @ [LsSet ''__stcm_test__'' ''1'',
                               ConsoleWarn ''Silktide Consent Manager: localStorage is not available. Consent choices will not persist.'']\<rparr>)
      else Returns True (w\<lparr>storage := (storage w)(''__stcm_test__'' := None),
                            trace := trace w @ [LsSet ''__stcm_test__'' ''1'', LsRemove ''__stcm_test__'']\<rparr>))"
  by (simp add: checkLocalStorageAvailable_def tryCatch_def localStorage_setItem_def
      localStorage_removeItem_def bnd_def ret_def emit_def)

lemma construct_available:
  "construct (Some rc) w = Returns m w' \<Longrightarrow>
   localStorageAvailable m = (\<not> setThrows w ''__stcm_test__'' ''1'' \<and> \<not> removeThrows w ''__stcm_test__'')"
  by (auto simp add: construct_def validateConfig_def bnd_def ret_def raise_def
      checkLocalStorageAvailable_eq split: option.splits if_splits)

subsection \<open>Keys and the stored choice\<close>

lemma consentKey_inj [simp]: "(buildConsentKey m a = buildConsentKey m b) = (a = b)"
  by (simp add: buildConsentKey_def)

lemma oldConsentKey_inj [simp]: "(buildOldConsentKey m a = buildOldConsentKey m b) = (a = b)"
  by (simp add: buildOldConsentKey_def)

lemma consentKey_neq_old [simp]:
  "buildConsentKey m a \<noteq> buildOldConsentKey m b"
  "buildOldConsentKey m b \<noteq> buildConsentKey m a"
  by (simp_all add: buildConsentKey_def buildOldConsentKey_def)

lemma hasConsentedKey_neq_old [simp]:
  "buildHasConsentedKey m \<noteq> buildOldHasConsentedKey m"
  "buildOldHasConsentedKey m \<noteq> buildHasConsentedKey m"
  by (simp_all add: buildHasConsentedKey_def buildOldHasConsentedKey_def)

lemma extends_refl [simp]: "extends P w w"
  by (simp add: extends_def sameEnv_def)

lemma extends_trans: "extends P w w1 \<Longrightarrow> extends P w1 w2 \<Longrightarrow> extends P w w2"
  by (auto simp add: extends_def sameEnv_def)

lemma extends_emit [simp]: "extends P w (w\<lparr>trace := trace w @ [e]\<rparr>) = P e"
  by (simp add: extends_def sameEnv_def)

lemmas storage_eqs = getLocalStorageItem_eq setLocalStorageItem_eq removeLocalStorageItem_eq

lemma getConsentChoice_value:
  "\<exists>w'. getConsentChoice m i w = Returns (storedChoice m w i) w'"
  by (auto simp add: getConsentChoice_def storedChoice_def Let_def bnd_def ret_def storage_eqs
      readItem_def split: option.splits)

lemma getConsentChoice_extends:
  "extends isStorageEffect w (finalWorld (getConsentChoice m i w))"
  by (auto simp add: getConsentChoice_def Let_def bnd_def ret_def storage_eqs
      readItem_def extends_def sameEnv_def split: option.splits)

lemma getConsentChoice_storage_frame:
  "k \<noteq> buildConsentKey m i \<Longrightarrow> k \<noteq> buildOldConsentKey m i \<Longrightarrow>
   storage (finalWorld (getConsentChoice m i w)) k = storage w k"
  by (auto simp add: getConsentChoice_def Let_def bnd_def ret_def storage_eqs
      readItem_def split: option.splits)

lemma getConsentChoice_noop:
  "readItem m w (buildConsentKey m i) \<noteq> None \<Longrightarrow>
   getConsentChoice m i w = Returns (storedChoice m w i) w"
  by (auto simp add: getConsentChoice_def storedChoice_def Let_def bnd_def ret_def storage_eqs
      readItem_def split: option.splits if_splits)

lemma getConsentChoice_migrates:
  "localStorageAvailable m \<Longrightarrow> healthy w \<Longrightarrow>
   storage w (buildConsentKey m i) = None \<Longrightarrow> storage w (buildOldConsentKey m i) = Some v \<Longrightarrow>
   getConsentChoice m i w =
     Returns (JBool (v = ''true''))
       (w\<lparr>storage := (storage w)(buildConsentKey m i \<mapsto> v, buildOldConsentKey m i := None),
          trace := trace w @ [LsSet (buildConsentKey m i) v, LsRemove (buildOldConsentKey m i)]\<rparr>)"
  by (simp add: getConsentChoice_def Let_def bnd_def ret_def storage_eqs readItem_def healthy_def)

lemma getConsentChoice_keeps_choice:
  "healthy w \<Longrightarrow> storedChoice m (finalWorld (getConsentChoice m i w)) i = storedChoice m w i"
  by (auto simp add: getConsentChoice_def storedChoice_def Let_def bnd_def ret_def storage_eqs
      readItem_def healthy_def split: option.splits)

lemma storedChoice_cong:
  "sameEnv w w' \<Longrightarrow>
   storage w' (buildConsentKey m i) = storage w (buildConsentKey m i) \<Longrightarrow>
   storage w' (buildOldConsentKey m i) = storage w (buildOldConsentKey m i) \<Longrightarrow>
   storedChoice m w' i = storedChoice m w i"
  unfolding storedChoice_def readItem_def sameEnv_def by (auto split: option.splits)

lemma getConsentChoice_other_choice:
  "j \<noteq> i \<Longrightarrow> storedChoice m (finalWorld (getConsentChoice m i w)) j = storedChoice m w j"
proof -
  assume ji: "j \<noteq> i"
  have e: "sameEnv w (finalWorld (getConsentChoice m i w))"
    using getConsentChoice_extends [of w m i] by (simp add: extends_def)
  show ?thesis
    by (rule storedChoice_cong [OF e]) (simp_all add: getConsentChoice_storage_frame ji)
qed

lemma example_keys:
  "buildConsentKey (managerOf ts) ''analytics'' = ''stcm.consent.analytics''"
  "buildOldConsentKey (managerOf ts) ''analytics'' = ''silktideCookieChoice_analytics''"
  "buildHasConsentedKey (managerOf ts) = ''stcm.hasConsented''"
  "buildOldHasConsentedKey (managerOf ts) = ''silktideCookieBanner_InitialChoice''"
  by (simp_all add: buildConsentKey_def buildOldConsentKey_def buildHasConsentedKey_def
      buildOldHasConsentedKey_def managerOf_def configOf_def)

lemma healthy_examples [simp]:
  "healthy emptyWorld" "healthy legacyWorld" "healthy zeroFlagWorld" "healthy blankLegacyFlagWorld"
  by (simp_all add: healthy_def emptyWorld_def legacyWorld_def zeroFlagWorld_def
      blankLegacyFlagWorld_def)



subsection \<open>The first pass of the batch update\<close>

lemma healthy_sameEnv: "sameEnv w w' \<Longrightarrow> healthy w \<Longrightarrow> healthy w'"
  by (simp add: sameEnv_def healthy_def)

lemma healthy_extends: "extends P w w' \<Longrightarrow> healthy w \<Longrightarrow> healthy w'"
  by (auto simp add: extends_def intro: healthy_sameEnv)

lemma getConsentChoice_docScripts:
  "docScripts (finalWorld (getConsentChoice m i w)) = docScripts w"
  by (auto simp add: getConsentChoice_def Let_def bnd_def ret_def storage_eqs
      readItem_def split: option.splits)

lemma getConsentChoice_all_choices:
  assumes "healthy w"
  shows "storedChoice m (finalWorld (getConsentChoice m i w)) j = storedChoice m w j"
proof (cases "j = i")
  case True
  then show ?thesis using getConsentChoice_keeps_choice [OF assms] by simp
next
  case False
  then show ?thesis by (rule getConsentChoice_other_choice)
qed

lemma firstPassStep_eq:
  "firstPassStep m cs t a w =
     Returns (noteChange cs t (storedChoice m w (ct_id t)) a)
       (finalWorld (getConsentChoice m (ct_id t) w))"
proof -
  obtain w' where g: "getConsentChoice m (ct_id t) w = Returns (storedChoice m w (ct_id t)) w'"
    using getConsentChoice_value by blast
  show ?thesis
    by (simp add: firstPassStep_def bnd_def ret_def g)
qed

lemma firstPassAcc_cong:
  assumes "\<And>t. t \<in> set ts \<Longrightarrow> storedChoice m w1 (ct_id t) = storedChoice m w (ct_id t)"
  shows "firstPassAcc m cs w1 ts a = firstPassAcc m cs w ts a"
  unfolding firstPassAcc_def
  by (rule fold_cong) (simp_all add: assms)

lemma firstPass_fold:
  assumes "healthy w \<or> distinct (map ct_id ts)"
  shows "\<exists>w'. foldP (firstPassStep m cs) ts a w = Returns (firstPassAcc m cs w ts a) w' \<and>
              extends isStorageEffect w w' \<and>
              docScripts w' = docScripts w \<and>
              (healthy w \<longrightarrow> (\<forall>j. storedChoice m w' j = storedChoice m w j)) \<and>
              ((\<forall>t\<in>set ts. readItem m w (buildConsentKey m (ct_id t)) \<noteq> None) \<longrightarrow> w' = w)"
  using assms
proof (induction ts arbitrary: a w)
  case Nil
  show ?case by (simp add: firstPassAcc_def)
next
  case (Cons t ts)
  define w1 where "w1 = finalWorld (getConsentChoice m (ct_id t) w)"
  define a1 where "a1 = noteChange cs t (storedChoice m w (ct_id t)) a"
  have step: "firstPassStep m cs t a w = Returns a1 w1"
    by (simp add: firstPassStep_eq w1_def a1_def)
  have e1: "extends isStorageEffect w w1"
    unfolding w1_def by (rule getConsentChoice_extends)
  have d1: "docScripts w1 = docScripts w"
    unfolding w1_def by (rule getConsentChoice_docScripts)
  have h1: "healthy w \<Longrightarrow> healthy w1"
    using e1 by (rule healthy_extends)
  have all1: "healthy w \<Longrightarrow> storedChoice m w1 j = storedChoice m w j" for j
    unfolding w1_def by (rule getConsentChoice_all_choices)
  have c1: "storedChoice m w1 (ct_id t') = storedChoice m w (ct_id t')" if "t' \<in> set ts" for t'
  proof (cases "healthy w")
    case True
    then show ?thesis by (rule all1)
  next
    case False
    then have "distinct (map ct_id (t # ts))" using Cons.prems by simp
    then have n: "ct_id t \<notin> set (map ct_id ts)" by simp
    have i: "ct_id t' \<in> set (map ct_id ts)" using that by auto
    have "ct_id t' \<noteq> ct_id t" using n i by metis
    then show ?thesis unfolding w1_def by (rule getConsentChoice_other_choice)
  qed
  have st1: "healthy w1 \<or> distinct (map ct_id ts)"
    using Cons.prems h1 by auto
  from Cons.IH [OF st1, of a1]
  obtain w' where r: "foldP (firstPassStep m cs) ts a1 w1 = Returns (firstPassAcc m cs w1 ts a1) w'"
    and e2: "extends isStorageEffect w1 w'"
    and d2: "docScripts w' = docScripts w1"
    and all2: "healthy w1 \<longrightarrow> (\<forall>j. storedChoice m w' j = storedChoice m w1 j)"
    and same2: "(\<forall>t\<in>set ts. readItem m w1 (buildConsentKey m (ct_id t)) \<noteq> None) \<longrightarrow> w' = w1"
    by blast
  have acc: "firstPassAcc m cs w1 ts a1 = firstPassAcc m cs w (t # ts) a"
    using firstPassAcc_cong [of ts m w1 w cs a1] c1
    by (simp add: firstPassAcc_def a1_def)
  have res: "foldP (firstPassStep m cs) (t # ts) a w = Returns (firstPassAcc m cs w (t # ts) a) w'"
    using r by (simp add: bnd_def step acc)
  have ext: "extends isStorageEffect w w'"
    using e1 e2 by (rule extends_trans)
  have doc: "docScripts w' = docScripts w"
    using d1 d2 by simp
  have all: "healthy w \<longrightarrow> (\<forall>j. storedChoice m w' j = storedChoice m w j)"
    using all1 all2 h1 by simp
  have same: "(\<forall>t'\<in>set (t # ts). readItem m w (buildConsentKey m (ct_id t')) \<noteq> None) \<longrightarrow> w' = w"
  proof
    assume p: "\<forall>t'\<in>set (t # ts). readItem m w (buildConsentKey m (ct_id t')) \<noteq> None"
    then have "readItem m w (buildConsentKey m (ct_id t)) \<noteq> None" by simp
    then have "getConsentChoice m (ct_id t) w = Returns (storedChoice m w (ct_id t)) w"
      by (rule getConsentChoice_noop)
    then have "w1 = w" by (simp add: w1_def)
    then show "w' = w" using same2 p by simp
  qed
  show ?case using res ext doc all same by blast
qed

lemma firstPass_eq:
  assumes "healthy w \<or> distinct (map ct_id (consentTypes (cfg m)))"
  shows "\<exists>w'. firstPass m cs w = Returns (firstPassAcc m cs w (consentTypes (cfg m)) initialAcc) w' \<and>
              extends isStorageEffect w w' \<and>
              docScripts w' = docScripts w \<and>
              (healthy w \<longrightarrow> (\<forall>j. storedChoice m w' j = storedChoice m w j)) \<and>
              ((\<forall>t\<in>set (consentTypes (cfg m)). readItem m w (buildConsentKey m (ct_id t)) \<noteq> None)
                 \<longrightarrow> w' = w)"
  unfolding firstPass_def by (rule firstPass_fold [OF assms])

text \<open>What the accumulator of the first pass holds.\<close>

lemma noteChange_unchanged [simp]:
  "getProp cs (ct_id t) = prev \<Longrightarrow> noteChange cs t prev a = a"
  by (simp add: noteChange_def)

lemma firstPassAcc_hasChanges:
  "acc_hasChanges (firstPassAcc m cs w ts a) = (acc_hasChanges a \<or> (\<exists>t\<in>set ts. wasChanged m cs w t))"
  unfolding firstPassAcc_def
  by (induction ts arbitrary: a) (auto simp add: noteChange_def wasChanged_def Let_def)

lemma firstPassAcc_changes:
  "acc_changes (firstPassAcc m cs w ts a) =
     acc_changes a @ map (\<lambda>t. \<lparr> ch_type = t, ch_newState = getProp cs (ct_id t),
                                ch_previousState = storedChoice m w (ct_id t) \<rparr>)
                       (filter (wasChanged m cs w) ts)"
  unfolding firstPassAcc_def
  by (induction ts arbitrary: a) (auto simp add: noteChange_def wasChanged_def Let_def)



subsection \<open>Writing the changes, the consent signal and the callbacks\<close>

lemma sameStore_refl [simp]: "sameStore w w"
  by (simp add: sameStore_def sameEnv_def)


lemma sameStore_trace [simp]: "sameStore w (w\<lparr>trace := tr\<rparr>)"
  by (simp add: sameStore_def sameEnv_def)


lemma gtagCalls_append [simp]: "gtagCalls (xs @ ys) = gtagCalls xs @ gtagCalls ys"
  by (induction xs rule: gtagCalls.induct) simp_all

lemma dataLayerPushes_append [simp]: "dataLayerPushes (xs @ ys) = dataLayerPushes xs @ dataLayerPushes ys"
  by (induction xs rule: dataLayerPushes.induct) simp_all

lemma reloadTimers_append [simp]: "reloadTimers (xs @ ys) = reloadTimers xs + reloadTimers ys"
  by (induction xs rule: reloadTimers.induct) simp_all





text \<open>Writing a choice.\<close>

lemma storedChoice_defined: "storedChoice m w i \<noteq> Undefined"
  by (simp add: storedChoice_def split: option.splits)

lemma storedChoice_not_object: "storedChoice m w i \<noteq> JObject s"
  by (simp add: storedChoice_def split: option.splits)

lemma setConsentChoice_not_boolean:
  "v = Undefined \<or> v = Null \<Longrightarrow> \<exists>e. setConsentChoice m i v w = Throws (TypeError e) w"
  by (auto simp add: setConsentChoice_def toString_def Let_def bnd_def raise_def)

lemma setConsentChoice_returns:
  "v \<noteq> Undefined \<Longrightarrow> v \<noteq> Null \<Longrightarrow>
   \<exists>w'. setConsentChoice m i v w = Returns () w' \<and> extends isStorageEffect w w' \<and>
         docScripts w' = docScripts w"
  by (cases v)
    (auto simp add: setConsentChoice_def toString_def Let_def bnd_def ret_def storage_eqs
      readItem_def extends_def sameEnv_def)



lemma forEach_map: "forEach (map g xs) f w = forEach xs (\<lambda>x. f (g x)) w"
  by (induction xs arbitrary: w) (simp_all add: bnd_def split: outcome.splits)

lemma secondPass_throws:
  assumes "\<exists>t\<in>set ts. getProp cs (ct_id t) = Undefined \<or> getProp cs (ct_id t) = Null"
  shows "\<exists>e w'. forEach ts (\<lambda>t. setConsentChoice m (ct_id t) (getProp cs (ct_id t))) w
                   = Throws (TypeError e) w' \<and> extends isStorageEffect w w'"
  using assms
proof (induction ts arbitrary: w)
  case Nil
  then show ?case by simp
next
  case (Cons t ts)
  show ?case
  proof (cases "getProp cs (ct_id t) = Undefined \<or> getProp cs (ct_id t) = Null")
    case True
    then obtain e where "setConsentChoice m (ct_id t) (getProp cs (ct_id t)) w = Throws (TypeError e) w"
      using setConsentChoice_not_boolean by blast
    then show ?thesis by (auto simp add: bnd_def)
  next
    case False
    then have ok: "getProp cs (ct_id t) \<noteq> Undefined" "getProp cs (ct_id t) \<noteq> Null" by auto
    obtain w1 where s: "setConsentChoice m (ct_id t) (getProp cs (ct_id t)) w = Returns () w1"
      and e1: "extends isStorageEffect w w1"
      using setConsentChoice_returns [OF ok] by blast
    have "\<exists>t\<in>set ts. getProp cs (ct_id t) = Undefined \<or> getProp cs (ct_id t) = Null"
      using Cons.prems False by auto
    then obtain e w' where
      r: "forEach ts (\<lambda>t. setConsentChoice m (ct_id t) (getProp cs (ct_id t))) w1 = Throws (TypeError e) w'"
      and e2: "extends isStorageEffect w1 w'"
      using Cons.IH by blast
    have "extends isStorageEffect w w'" using e1 e2 by (rule extends_trans)
    then show ?thesis using r by (auto simp add: bnd_def s)
  qed
qed


lemma thirdPassOutcome_Returns_refl [simp]: "thirdPassOutcome w (Returns () w)"
  by (simp add: thirdPassOutcome_def)













subsection \<open>The effects of the migration\<close>

lemma getConsentChoice_effects:
  "\<exists>evs. trace (finalWorld (getConsentChoice m i w)) = trace w @ evs \<and>
         list_all (\<lambda>e. ((\<exists>s. e = ConsoleWarn s) \<and> \<not> healthy w) \<or> e = LsRemove (buildOldConsentKey m i) \<or>
                       (\<exists>v. e = LsSet (buildConsentKey m i) v \<and>
                            storage w (buildOldConsentKey m i) = Some v)) evs"
  by (auto simp add: getConsentChoice_def Let_def bnd_def ret_def storage_eqs
      readItem_def healthy_def split: option.splits if_splits)

lemma getConsentChoice_old_keys:
  "storage (finalWorld (getConsentChoice m i w)) (buildOldConsentKey m j) = Some v \<Longrightarrow>
   storage w (buildOldConsentKey m j) = Some v"
  by (auto simp add: getConsentChoice_def Let_def bnd_def ret_def storage_eqs
      readItem_def split: option.splits if_splits)

lemma isMigrationEffect_step:
  assumes "t \<in> set (consentTypes (cfg m))"
    and "((\<exists>s. e = ConsoleWarn s) \<and> \<not> healthy w0) \<or> e = LsRemove (buildOldConsentKey m (ct_id t)) \<or>
         (\<exists>v. e = LsSet (buildConsentKey m (ct_id t)) v \<and>
              storage w0 (buildOldConsentKey m (ct_id t)) = Some v)"
  shows "isMigrationEffect m w0 e"
  using assms by (auto simp add: list_ex_iff)

lemma isMigrationEffect_storage: "isMigrationEffect m w0 e \<Longrightarrow> isStorageEffect e"
  by (cases e) simp_all

lemma firstPass_migration:
  assumes "set ts \<subseteq> set (consentTypes (cfg m))"
    and "\<forall>j v. storage w (buildOldConsentKey m j) = Some v \<longrightarrow>
               storage w0 (buildOldConsentKey m j) = Some v"
    and "healthy w0 \<longrightarrow> healthy w"
  shows "\<exists>evs. trace (finalWorld (foldP (firstPassStep m cs) ts a w)) = trace w @ evs \<and>
               list_all (isMigrationEffect m w0) evs"
  using assms
proof (induction ts arbitrary: a w)
  case Nil
  show ?case by simp
next
  case (Cons t ts)
  define w1 where "w1 = finalWorld (getConsentChoice m (ct_id t) w)"
  define a1 where "a1 = noteChange cs t (storedChoice m w (ct_id t)) a"
  have step: "firstPassStep m cs t a w = Returns a1 w1"
    by (simp add: firstPassStep_eq w1_def a1_def)
  have t: "t \<in> set (consentTypes (cfg m))" using Cons.prems(1) by simp
  obtain evs1 where tr1: "trace w1 = trace w @ evs1"
    and ef: "list_all (\<lambda>e. ((\<exists>s. e = ConsoleWarn s) \<and> \<not> healthy w) \<or> e = LsRemove (buildOldConsentKey m (ct_id t)) \<or>
                       (\<exists>v. e = LsSet (buildConsentKey m (ct_id t)) v \<and>
                            storage w (buildOldConsentKey m (ct_id t)) = Some v)) evs1"
    using getConsentChoice_effects [of m "ct_id t" w] unfolding w1_def by blast
  have m1: "list_all (isMigrationEffect m w0) evs1"
    unfolding list_all_iff
  proof
    fix e
    assume "e \<in> set evs1"
    then have "((\<exists>s. e = ConsoleWarn s) \<and> \<not> healthy w) \<or> e = LsRemove (buildOldConsentKey m (ct_id t)) \<or>
                       (\<exists>v. e = LsSet (buildConsentKey m (ct_id t)) v \<and>
                            storage w (buildOldConsentKey m (ct_id t)) = Some v)"
      using ef by (simp add: list_all_iff)
    then have "((\<exists>s. e = ConsoleWarn s) \<and> \<not> healthy w0) \<or> e = LsRemove (buildOldConsentKey m (ct_id t)) \<or>
                       (\<exists>v. e = LsSet (buildConsentKey m (ct_id t)) v \<and>
                            storage w0 (buildOldConsentKey m (ct_id t)) = Some v)"
      using Cons.prems(2,3) by blast
    then show "isMigrationEffect m w0 e" by (rule isMigrationEffect_step [OF t])
  qed
  have inv1: "\<forall>j v. storage w1 (buildOldConsentKey m j) = Some v \<longrightarrow>
               storage w0 (buildOldConsentKey m j) = Some v"
    using getConsentChoice_old_keys Cons.prems(2) unfolding w1_def by blast
  have sub: "set ts \<subseteq> set (consentTypes (cfg m))" using Cons.prems(1) by simp
  have "extends isStorageEffect w w1"
    unfolding w1_def by (rule getConsentChoice_extends)
  then have h1: "healthy w0 \<longrightarrow> healthy w1"
    using Cons.prems(3) healthy_extends by blast
  obtain evs2 where tr2: "trace (finalWorld (foldP (firstPassStep m cs) ts a1 w1)) = trace w1 @ evs2"
    and m2: "list_all (isMigrationEffect m w0) evs2"
    using Cons.IH [OF sub inv1 h1] by blast
  have "trace (finalWorld (foldP (firstPassStep m cs) (t # ts) a w)) = trace w @ (evs1 @ evs2)"
    using tr1 tr2 by (simp add: bnd_def step)
  moreover have "list_all (isMigrationEffect m w0) (evs1 @ evs2)"
    using m1 m2 by simp
  ultimately show ?case by blast
qed

subsection \<open>The batch update as a whole\<close>

lemma batch_unchanged:
  assumes st: "healthy w \<or> distinct (map ct_id (consentTypes (cfg m)))"
    and un: "\<forall>t\<in>set (consentTypes (cfg m)). \<not> wasChanged m cs w t"
  shows "\<exists>w'. batchUpdateConsents m cs w = Returns False w' \<and>
              extends (isMigrationEffect m w) w w' \<and>
              extends isStorageEffect w w' \<and>
              docScripts w' = docScripts w \<and>
              (healthy w \<longrightarrow> (\<forall>j. storedChoice m w' j = storedChoice m w j)) \<and>
              ((\<forall>t\<in>set (consentTypes (cfg m)). readItem m w (buildConsentKey m (ct_id t)) \<noteq> None)
                 \<longrightarrow> w' = w)"
proof -
  define a where "a = firstPassAcc m cs w (consentTypes (cfg m)) initialAcc"
  obtain w1 where f: "firstPass m cs w = Returns a w1"
    and e: "extends isStorageEffect w w1"
    and rest: "docScripts w1 = docScripts w"
      "healthy w \<longrightarrow> (\<forall>j. storedChoice m w1 j = storedChoice m w j)"
      "(\<forall>t\<in>set (consentTypes (cfg m)). readItem m w (buildConsentKey m (ct_id t)) \<noteq> None) \<longrightarrow> w1 = w"
    using firstPass_eq [OF st, of cs] unfolding a_def by blast
  obtain evs where "trace (finalWorld (firstPass m cs w)) = trace w @ evs"
    and "list_all (isMigrationEffect m w) evs"
    using firstPass_migration [of "consentTypes (cfg m)" m w w cs initialAcc]
    unfolding firstPass_def by auto
  then have mg: "extends (isMigrationEffect m w) w w1"
    using e f by (auto simp add: extends_def)
  have nc: "\<not> acc_hasChanges a"
    using un by (simp add: a_def firstPassAcc_hasChanges initialAcc_def)
  have "batchUpdateConsents m cs w = Returns False w1"
    by (simp add: batchUpdateConsents_def bnd_def f nc ret_def)
  then show ?thesis using rest e mg by blast
qed


text \<open>A changed category whose requested state is \<^verbatim>\<open>undefined\<close> or \<^verbatim>\<open>null\<close>.\<close>

lemma batch_throws_without_state:
  assumes st: "healthy w \<or> distinct (map ct_id (consentTypes (cfg m)))"
    and bad: "\<exists>t\<in>set (changedTypes m cs w).
                getProp cs (ct_id t) = Undefined \<or> getProp cs (ct_id t) = Null"
  shows "\<exists>e w'. batchUpdateConsents m cs w = Throws (TypeError e) w' \<and>
                extends isStorageEffect w w'"
proof -
  define a where "a = firstPassAcc m cs w (consentTypes (cfg m)) initialAcc"
  define cts where "cts = changedTypes m cs w"
  obtain w1 where f: "firstPass m cs w = Returns a w1"
    and e1: "extends isStorageEffect w w1"
    using firstPass_eq [OF st, of cs] unfolding a_def by blast
  have hc: "acc_hasChanges a"
    using bad by (auto simp add: a_def firstPassAcc_hasChanges changedTypes_def)
  have chs: "acc_changes a = map (\<lambda>t. \<lparr> ch_type = t, ch_newState = getProp cs (ct_id t),
                                ch_previousState = storedChoice m w (ct_id t) \<rparr>) cts"
    by (simp add: a_def cts_def changedTypes_def firstPassAcc_changes initialAcc_def)
  obtain e w' where
    t: "forEach cts (\<lambda>t. setConsentChoice m (ct_id t) (getProp cs (ct_id t))) w1 = Throws (TypeError e) w'"
    and e2: "extends isStorageEffect w1 w'"
    using secondPass_throws [of cts cs m w1] bad unfolding cts_def by blast
  have "forEach (acc_changes a) (\<lambda>c. setConsentChoice m (ct_id (ch_type c)) (ch_newState c)) w1
               = Throws (TypeError e) w'"
    using t by (simp add: chs forEach_map)
  then have "batchUpdateConsents m cs w = Throws (TypeError e) w'"
    by (simp add: batchUpdateConsents_def bnd_def f hc)
  then show ?thesis using extends_trans [OF e1 e2] by blast
qed

lemma batch_throws_on_omitted_category:
  assumes st: "healthy w \<or> distinct (map ct_id (consentTypes (cfg m)))"
    and t: "t \<in> set (consentTypes (cfg m))"
    and u: "getProp cs (ct_id t) = Undefined"
  shows "\<exists>e w'. batchUpdateConsents m cs w = Throws (TypeError e) w'"
proof -
  have "wasChanged m cs w t"
    using u storedChoice_defined [of m w "ct_id t"] by (simp add: wasChanged_def)
  then have "\<exists>t\<in>set (changedTypes m cs w).
                getProp cs (ct_id t) = Undefined \<or> getProp cs (ct_id t) = Null"
    using t u by (auto simp add: changedTypes_def)
  then show ?thesis using batch_throws_without_state [OF st] by blast
qed




lemma thirdPassReturns_example [simp]:
  "thirdPassReturns (managerOf [plainType i]) w"
  "thirdPassReturns (managerOf [signalType i ps, signalType j qs]) w"
  by (simp_all add: thirdPassReturns_def typeReturns_def managerOf_def configOf_def
      plainType_def signalType_def)


subsection \<open>Running the model on the examples\<close>

lemmas run_defs =
  batchUpdateConsents_def firstPass_def firstPassStep_def noteChange_def initialAcc_def
  getConsentChoice_def setConsentChoice_def toString_def getProp_def setProp_def setEntry_def
  plainObject_def objectPrototype_def nativeFunction_def callIfFunction_def
  sendConsentUpdate_def typeofGtagIsFunction_def typeofSilktideIsFunction_def
  runChangeCallbacks_def injectConsentScripts_def injectScript_def scriptExists_def
  appendScript_def storage_eqs readItem_def
  bnd_def ret_def raise_def emit_def whenP_def Let_def

lemmas example_defs =
  managerOf_def configOf_def plainType_def signalType_def scriptedType_def
  emptyWorld_def legacyWorld_def grantedWorld_def adsWorld_def
  buildConsentKey_def buildOldConsentKey_def

subsection \<open>The consolidated payload\<close>








subsection \<open>The consent maps\<close>

lemma setProp_ownProps:
  "j \<noteq> ''__proto__'' \<Longrightarrow>
   map_of (ownProps (setProp obj k v)) j = (if j = k then Some v else map_of (ownProps obj) j)"
  by (auto simp add: setProp_def update_conv' split: jsval.splits)

lemma getProp_own:
  "map_of (ownProps obj) j = Some v \<Longrightarrow> getProp obj j = v"
  by (simp add: getProp_def)

lemma acceptedStep_eq:
  "bnd (getConsentChoice m (ct_id t)) (\<lambda>choice. ret (setProp acc (ct_id t) choice)) w =
     Returns (setProp acc (ct_id t) (storedChoice m w (ct_id t)))
       (finalWorld (getConsentChoice m (ct_id t) w))"
proof -
  obtain w' where g: "getConsentChoice m (ct_id t) w = Returns (storedChoice m w (ct_id t)) w'"
    using getConsentChoice_value by blast
  show ?thesis by (simp add: bnd_def ret_def g)
qed

lemma accepted_fold:
  assumes "healthy w \<or> distinct (map ct_id ts)"
  shows "\<exists>obj w'. foldP (\<lambda>consentType acc.
                      bnd (getConsentChoice m (ct_id consentType)) (\<lambda>choice.
                      ret (setProp acc (ct_id consentType) choice))) ts acc w = Returns obj w' \<and>
            (\<forall>j. j \<noteq> ''__proto__'' \<longrightarrow> map_of (ownProps obj) j =
                   (if j \<in> ct_id ` set ts then Some (storedChoice m w j)
                    else map_of (ownProps acc) j))"
  using assms
proof (induction ts arbitrary: acc w)
  case Nil
  show ?case by simp
next
  case (Cons t ts)
  define w1 where "w1 = finalWorld (getConsentChoice m (ct_id t) w)"
  define acc1 where "acc1 = setProp acc (ct_id t) (storedChoice m w (ct_id t))"
  have e1: "extends isStorageEffect w w1"
    unfolding w1_def by (rule getConsentChoice_extends)
  have h1: "healthy w \<Longrightarrow> healthy w1"
    using e1 by (rule healthy_extends)
  have c1: "storedChoice m w1 (ct_id t') = storedChoice m w (ct_id t')" if "t' \<in> set ts" for t'
  proof (cases "healthy w")
    case True
    then show ?thesis unfolding w1_def by (rule getConsentChoice_all_choices)
  next
    case False
    then have "distinct (map ct_id (t # ts))" using Cons.prems by simp
    then have n: "ct_id t \<notin> set (map ct_id ts)" by simp
    have i: "ct_id t' \<in> set (map ct_id ts)" using that by auto
    have "ct_id t' \<noteq> ct_id t" using n i by metis
    then show ?thesis unfolding w1_def by (rule getConsentChoice_other_choice)
  qed
  have st1: "healthy w1 \<or> distinct (map ct_id ts)"
    using Cons.prems h1 by auto
  from Cons.IH [OF st1, of acc1]
  obtain obj w' where r: "foldP (\<lambda>consentType acc.
                      bnd (getConsentChoice m (ct_id consentType)) (\<lambda>choice.
                      ret (setProp acc (ct_id consentType) choice))) ts acc1 w1 = Returns obj w'"
    and mo: "\<forall>j. j \<noteq> ''__proto__'' \<longrightarrow> map_of (ownProps obj) j =
                   (if j \<in> ct_id ` set ts then Some (storedChoice m w1 j)
                    else map_of (ownProps acc1) j)"
    by blast
  have res: "foldP (\<lambda>consentType acc.
                      bnd (getConsentChoice m (ct_id consentType)) (\<lambda>choice.
                      ret (setProp acc (ct_id consentType) choice))) (t # ts) acc w = Returns obj w'"
    using r acceptedStep_eq [of m t acc w] by (simp add: bnd_def w1_def acc1_def)
  have "map_of (ownProps obj) j =
          (if j \<in> ct_id ` set (t # ts) then Some (storedChoice m w j)
           else map_of (ownProps acc) j)" if np: "j \<noteq> ''__proto__''" for j
  proof (cases "j \<in> ct_id ` set ts")
    case True
    then obtain t' where t': "t' \<in> set ts" and j: "j = ct_id t'" by blast
    show ?thesis using mo np True c1 [OF t'] j by simp
  next
    case False
    then have "map_of (ownProps obj) j = map_of (ownProps acc1) j" using mo np by simp
    then show ?thesis using False np by (simp add: acc1_def setProp_ownProps)
  qed
  then show ?case using res by blast
qed

subsection \<open>C9: the storage helpers\<close>

text \<open>
  Claim C9. The storage helpers never raise an error to their caller. Availability is probed
  at construction by a throwaway write and delete, and the outcome of the probe is what the
  instance keeps. When the probe failed, every read gives \<^verbatim>\<open>null\<close> and every write or
  removal gives \<^verbatim>\<open>false\<close>, leaving the world untouched. When storage is available but
  the single operation throws, the exception is swallowed: a warning is logged and
  \<^verbatim>\<open>null\<close> or \<^verbatim>\<open>false\<close> is reported.
\<close>

theorem storage_helpers_never_throw:
  "(\<exists>b w'. checkLocalStorageAvailable w = Returns b w') \<and>
   (\<exists>r w'. getLocalStorageItem m key w = Returns r w') \<and>
   (\<exists>b w'. setLocalStorageItem m key v w = Returns b w') \<and>
   (\<exists>b w'. removeLocalStorageItem m key w = Returns b w') \<and>
   (construct (Some rc) w = Returns m w1 \<longrightarrow>
      localStorageAvailable m = (\<not> setThrows w ''__stcm_test__'' ''1'' \<and> \<not> removeThrows w ''__stcm_test__'')) \<and>
   (\<not> localStorageAvailable m \<longrightarrow>
      getLocalStorageItem m key w = Returns None w \<and>
      setLocalStorageItem m key v w = Returns False w \<and>
      removeLocalStorageItem m key w = Returns False w) \<and>
   (localStorageAvailable m \<and> getThrows w key \<longrightarrow>
      getLocalStorageItem m key w =
        Returns None (w\<lparr>trace := trace w @ [ConsoleWarn ''Silktide Consent Manager: Error reading from localStorage'']\<rparr>)) \<and>
   (localStorageAvailable m \<and> setThrows w key v \<longrightarrow>
      setLocalStorageItem m key v w =
        Returns False (w\<lparr>trace := trace w @ [ConsoleWarn ''Silktide Consent Manager: Error writing to localStorage'']\<rparr>)) \<and>
   (localStorageAvailable m \<and> removeThrows w key \<longrightarrow>
      removeLocalStorageItem m key w =
        Returns False (w\<lparr>trace := trace w @ [ConsoleWarn ''Silktide Consent Manager: Error removing from localStorage'']\<rparr>))"
proof -
  have c: "construct (Some rc) w = Returns m w1 \<longrightarrow>
      localStorageAvailable m = (\<not> setThrows w ''__stcm_test__'' ''1'' \<and> \<not> removeThrows w ''__stcm_test__'')"
    using construct_available by blast
  have e1: "\<exists>b w'. checkLocalStorageAvailable w = Returns b w'"
    by (auto simp add: checkLocalStorageAvailable_eq)
  have e2: "\<exists>r w'. getLocalStorageItem m key w = Returns r w'"
    by (auto simp add: getLocalStorageItem_eq)
  have e3: "\<exists>b w'. setLocalStorageItem m key v w = Returns b w'"
    by (auto simp add: setLocalStorageItem_eq)
  have e4: "\<exists>b w'. removeLocalStorageItem m key w = Returns b w'"
    by (auto simp add: removeLocalStorageItem_eq)
  show ?thesis
    using c e1 e2 e3 e4
    by (simp add: getLocalStorageItem_eq setLocalStorageItem_eq
        removeLocalStorageItem_eq readItem_def)
qed


theorem storage_helpers_never_throw_witness:
  "construct (Some (rawConfigOf [plainType ''analytics''])) brokenWorld
     = Returns (offlineManagerOf [plainType ''analytics''])
         (brokenWorld\<lparr>trace := [ConsoleWarn ''Silktide Consent Manager: localStorage is not available. Consent choices will not persist.'']\<rparr>) \<and>
   \<not> localStorageAvailable (offlineManagerOf [plainType ''analytics'']) \<and>
   getLocalStorageItem (offlineManagerOf [plainType ''analytics'']) ''stcm.consent.analytics'' brokenWorld
     = Returns None brokenWorld \<and>
   setLocalStorageItem (offlineManagerOf [plainType ''analytics'']) ''stcm.consent.analytics'' ''true'' brokenWorld
     = Returns False brokenWorld \<and>
   removeLocalStorageItem (offlineManagerOf [plainType ''analytics'']) ''stcm.consent.analytics'' brokenWorld
     = Returns False brokenWorld \<and>
   construct (Some (rawConfigOf [plainType ''analytics''])) flakyWorld
     = Returns (managerOf [plainType ''analytics''])
         (flakyWorld\<lparr>trace := [LsSet ''__stcm_test__'' ''1'', LsRemove ''__stcm_test__'']\<rparr>) \<and>
   localStorageAvailable (managerOf [plainType ''analytics'']) \<and>
   getThrows flakyWorld ''stcm.consent.analytics'' \<and>
   setThrows flakyWorld ''stcm.consent.analytics'' ''true'' \<and>
   removeThrows flakyWorld ''stcm.consent.analytics'' \<and>
   getLocalStorageItem (managerOf [plainType ''analytics'']) ''stcm.consent.analytics'' flakyWorld
     = Returns None (flakyWorld\<lparr>trace := [ConsoleWarn ''Silktide Consent Manager: Error reading from localStorage'']\<rparr>) \<and>
   setLocalStorageItem (managerOf [plainType ''analytics'']) ''stcm.consent.analytics'' ''true'' flakyWorld
     = Returns False (flakyWorld\<lparr>trace := [ConsoleWarn ''Silktide Consent Manager: Error writing to localStorage'']\<rparr>) \<and>
   removeLocalStorageItem (managerOf [plainType ''analytics'']) ''stcm.consent.analytics'' flakyWorld
     = Returns False (flakyWorld\<lparr>trace := [ConsoleWarn ''Silktide Consent Manager: Error removing from localStorage'']\<rparr>)"
proof -
  have c1: "construct (Some (rawConfigOf [plainType ''analytics''])) brokenWorld
     = Returns (offlineManagerOf [plainType ''analytics''])
         (brokenWorld\<lparr>trace := [ConsoleWarn ''Silktide Consent Manager: localStorage is not available. Consent choices will not persist.'']\<rparr>)"
    by (simp add: construct_def validateConfig_def rawConfigOf_def offlineManagerOf_def configOf_def
        bnd_def ret_def checkLocalStorageAvailable_eq brokenWorld_def emptyWorld_def)
  have c2: "construct (Some (rawConfigOf [plainType ''analytics''])) flakyWorld
     = Returns (managerOf [plainType ''analytics''])
         (flakyWorld\<lparr>trace := [LsSet ''__stcm_test__'' ''1'', LsRemove ''__stcm_test__'']\<rparr>)"
    by (simp add: construct_def validateConfig_def rawConfigOf_def managerOf_def configOf_def
        bnd_def ret_def checkLocalStorageAvailable_eq flakyWorld_def emptyWorld_def)
  have off: "\<not> localStorageAvailable (offlineManagerOf [plainType ''analytics''])"
    by (simp add: offlineManagerOf_def)
  have on: "localStorageAvailable (managerOf [plainType ''analytics''])"
    by (simp add: managerOf_def)
  have th: "getThrows flakyWorld ''stcm.consent.analytics'' \<and>
            setThrows flakyWorld ''stcm.consent.analytics'' ''true'' \<and>
            removeThrows flakyWorld ''stcm.consent.analytics''"
    by (simp add: flakyWorld_def)
  have tr: "trace brokenWorld = [] \<and> trace flakyWorld = []"
    by (simp add: brokenWorld_def flakyWorld_def emptyWorld_def)
  show ?thesis
    using storage_helpers_never_throw
            [of brokenWorld "offlineManagerOf [plainType ''analytics'']" "''stcm.consent.analytics''"
                "''true''" "rawConfigOf [plainType ''analytics'']"
                "brokenWorld\<lparr>trace := [ConsoleWarn ''Silktide Consent Manager: localStorage is not available. Consent choices will not persist.'']\<rparr>"]
          storage_helpers_never_throw
            [of flakyWorld "managerOf [plainType ''analytics'']" "''stcm.consent.analytics''"
                "''true''" "rawConfigOf [plainType ''analytics'']"
                "flakyWorld\<lparr>trace := [LsSet ''__stcm_test__'' ''1'', LsRemove ''__stcm_test__'']\<rparr>"]
          c1 c2 off on th tr
    by simp
qed

subsection \<open>C3: lazy migration of a legacy choice\<close>

text \<open>
  Claim C3 says that, whenever the current key of a category is absent and its legacy key
  holds \<^verbatim>\<open>"true"\<close>, a read returns \<^verbatim>\<open>true\<close>, writes the current key and
  deletes the legacy key, and that a second read returns the same. The code ignores the
  result of the write: in \<open>fullLegacyWorld\<close>, where every \<^verbatim>\<open>setItem\<close> throws, the
  first read returns \<^verbatim>\<open>true\<close>, writes nothing and still deletes the legacy key, and the
  second read returns \<^verbatim>\<open>null\<close>. When the probe at construction failed, the read
  returns \<^verbatim>\<open>null\<close> and touches nothing.
\<close>

theorem legacy_choice_lost_counterexample:
  "storage fullLegacyWorld ''stcm.consent.analytics'' = None \<and>
   storage fullLegacyWorld ''silktideCookieChoice_analytics'' = Some ''true'' \<and>
   getConsentChoice (managerOf [plainType ''analytics'']) ''analytics'' fullLegacyWorld
     = Returns (JBool True)
         (fullLegacyWorld\<lparr>storage := Map.empty,
                          trace := [ConsoleWarn ''Silktide Consent Manager: Error writing to localStorage'',
                                    LsRemove ''silktideCookieChoice_analytics'']\<rparr>) \<and>
   getConsentChoice (managerOf [plainType ''analytics'']) ''analytics''
       (fullLegacyWorld\<lparr>storage := Map.empty,
                        trace := [ConsoleWarn ''Silktide Consent Manager: Error writing to localStorage'',
                                  LsRemove ''silktideCookieChoice_analytics'']\<rparr>)
     = Returns Null
         (fullLegacyWorld\<lparr>storage := Map.empty,
                          trace := [ConsoleWarn ''Silktide Consent Manager: Error writing to localStorage'',
                                    LsRemove ''silktideCookieChoice_analytics'']\<rparr>) \<and>
   getConsentChoice (offlineManagerOf [plainType ''analytics'']) ''analytics'' legacyWorld
     = Returns Null legacyWorld"
  by (simp add: run_defs example_defs fullLegacyWorld_def offlineManagerOf_def fun_eq_iff)

text \<open>
  Claim C3, amended. When storage was found available at construction, no storage call
  throws, the current key of a category is absent and its legacy key holds
  \<^verbatim>\<open>"true"\<close>, one call of \<open>getConsentChoice\<close> returns \<^verbatim>\<open>true\<close>, writes
  \<^verbatim>\<open>"true"\<close> under the current key and deletes the legacy key (the world \<open>migrated\<close>);
  a second call returns \<^verbatim>\<open>true\<close> again and leaves that world exactly as it is.
\<close>

theorem legacy_choice_migrates_once:
  assumes "localStorageAvailable m" and "healthy w"
    and "storage w (buildConsentKey m i) = None"
    and "storage w (buildOldConsentKey m i) = Some ''true''"
  shows "getConsentChoice m i w = Returns (JBool True) (migrated m i ''true'' w) \<and>
         storage (migrated m i ''true'' w) (buildConsentKey m i) = Some ''true'' \<and>
         storage (migrated m i ''true'' w) (buildOldConsentKey m i) = None \<and>
         getConsentChoice m i (migrated m i ''true'' w) = Returns (JBool True) (migrated m i ''true'' w)"
proof -
  have first: "getConsentChoice m i w = Returns (JBool True) (migrated m i ''true'' w)"
    using getConsentChoice_migrates [OF assms] by (simp add: migrated_def)
  have rd: "readItem m (migrated m i ''true'' w) (buildConsentKey m i) = Some ''true''"
    using assms(1,2) by (simp add: readItem_def migrated_def healthy_def)
  have "getConsentChoice m i (migrated m i ''true'' w)
          = Returns (storedChoice m (migrated m i ''true'' w) i) (migrated m i ''true'' w)"
    by (rule getConsentChoice_noop) (simp add: rd)
  then have second: "getConsentChoice m i (migrated m i ''true'' w)
          = Returns (JBool True) (migrated m i ''true'' w)"
    by (simp add: storedChoice_def rd)
  show ?thesis
    using first second by (simp add: migrated_def)
qed

theorem legacy_choice_migrates_once_witness:
  "getConsentChoice (managerOf [plainType ''analytics'']) ''analytics'' legacyWorld
     = Returns (JBool True)
         (emptyWorld\<lparr>storage := [''stcm.consent.analytics'' \<mapsto> ''true''],
                     trace := [LsSet ''stcm.consent.analytics'' ''true'',
                               LsRemove ''silktideCookieChoice_analytics'']\<rparr>) \<and>
   getConsentChoice (managerOf [plainType ''analytics'']) ''analytics''
       (emptyWorld\<lparr>storage := [''stcm.consent.analytics'' \<mapsto> ''true''],
                   trace := [LsSet ''stcm.consent.analytics'' ''true'',
                             LsRemove ''silktideCookieChoice_analytics'']\<rparr>)
     = Returns (JBool True)
         (emptyWorld\<lparr>storage := [''stcm.consent.analytics'' \<mapsto> ''true''],
                     trace := [LsSet ''stcm.consent.analytics'' ''true'',
                               LsRemove ''silktideCookieChoice_analytics'']\<rparr>)"
proof -
  have a: "localStorageAvailable (managerOf [plainType ''analytics''])"
    by (simp add: managerOf_def)
  have h: "healthy legacyWorld" by simp
  have n: "storage legacyWorld (buildConsentKey (managerOf [plainType ''analytics'']) ''analytics'') = None"
    by (simp add: example_keys legacyWorld_def emptyWorld_def)
  have l: "storage legacyWorld (buildOldConsentKey (managerOf [plainType ''analytics'']) ''analytics'')
             = Some ''true''"
    by (simp add: example_keys legacyWorld_def emptyWorld_def)
  have w1: "migrated (managerOf [plainType ''analytics'']) ''analytics'' ''true'' legacyWorld
          = emptyWorld\<lparr>storage := [''stcm.consent.analytics'' \<mapsto> ''true''],
                     trace := [LsSet ''stcm.consent.analytics'' ''true'',
                               LsRemove ''silktideCookieChoice_analytics'']\<rparr>"
    by (simp add: migrated_def example_keys legacyWorld_def emptyWorld_def fun_eq_iff)
  show ?thesis
    using legacy_choice_migrates_once [OF a h n l] by (simp add: w1)
qed

subsection \<open>C10: the has-consented flag\<close>



subsection \<open>C1: a batch that requests the stored state\<close>

text \<open>
  Claim C1 says that a batch update whose requested states equal the stored ones returns
  \<^verbatim>\<open>false\<close> without any side effect, storage writes included. The code reads every
  stored choice through \<open>getConsentChoice\<close>, and that read moves a legacy entry to its
  current key. With a choice stored under the legacy key only, the call returns \<^verbatim>\<open>false\<close>
  and yet writes the current key and deletes the legacy one.
\<close>

theorem batch_same_state_writes_storage_counterexample:
  "storedChoice (managerOf [plainType ''analytics'']) legacyWorld ''analytics''
     = getProp (plainObject [(''analytics'', JBool True)]) ''analytics'' \<and>
   batchUpdateConsents (managerOf [plainType ''analytics''])
       (plainObject [(''analytics'', JBool True)]) legacyWorld
     = Returns False
         (emptyWorld\<lparr>storage := [''stcm.consent.analytics'' \<mapsto> ''true''],
                     trace := [LsSet ''stcm.consent.analytics'' ''true'',
                               LsRemove ''silktideCookieChoice_analytics'']\<rparr>) \<and>
   storage legacyWorld ''stcm.consent.analytics'' = None"
  by (simp add: run_defs example_defs storedChoice_def fun_eq_iff)

text \<open>
  Claim C1, amended. Let the category ids be unique or let no storage call throw. A batch
  update whose requested state equals the stored choice for every configured category
  returns \<^verbatim>\<open>false\<close>. It calls no integration, pushes no event, runs no callback, injects
  no script and starts no reload timer: every effect it adds belongs to the read-triggered
  migration, that is, it writes under the current key of a configured category the value
  that the legacy key of that category held when the call began, or deletes the legacy key
  of a configured category, or, only when storage calls can throw, warns about one that did.
  If no storage call throws, every stored choice is what it was. If every configured
  category already has a readable current key, the world is left exactly as it was found.
\<close>

theorem batch_same_state_only_migrates:
  assumes "healthy w \<or> distinct (map ct_id (consentTypes (cfg m)))"
    and "\<forall>t\<in>set (consentTypes (cfg m)). getProp cs (ct_id t) = storedChoice m w (ct_id t)"
  shows "\<exists>w'. batchUpdateConsents m cs w = Returns False w' \<and>
              extends (isMigrationEffect m w) w w' \<and>
              docScripts w' = docScripts w \<and>
              (healthy w \<longrightarrow> (\<forall>j. storedChoice m w' j = storedChoice m w j)) \<and>
              ((\<forall>t\<in>set (consentTypes (cfg m)). readItem m w (buildConsentKey m (ct_id t)) \<noteq> None)
                 \<longrightarrow> w' = w)"
proof -
  have "\<forall>t\<in>set (consentTypes (cfg m)). \<not> wasChanged m cs w t"
    using assms(2) by (simp add: wasChanged_def)
  then show ?thesis
    using batch_unchanged [OF assms(1), of cs] by blast
qed

theorem batch_same_state_only_migrates_witness:
  "batchUpdateConsents (managerOf [plainType ''analytics''])
       (plainObject [(''analytics'', JBool True)]) grantedWorld
     = Returns False grantedWorld"
proof -
  let ?m = "managerOf [plainType ''analytics'']"
  let ?cs = "plainObject [(''analytics'', JBool True)]"
  have h: "healthy grantedWorld \<or> distinct (map ct_id (consentTypes (cfg ?m)))"
    by (simp add: healthy_def grantedWorld_def emptyWorld_def)
  have s: "\<forall>t\<in>set (consentTypes (cfg ?m)). getProp ?cs (ct_id t) = storedChoice ?m grantedWorld (ct_id t)"
    by (simp add: example_defs storedChoice_def readItem_def getProp_def plainObject_def)
  have k: "\<forall>t\<in>set (consentTypes (cfg ?m)). readItem ?m grantedWorld (buildConsentKey ?m (ct_id t)) \<noteq> None"
    by (simp add: example_defs readItem_def)
  show ?thesis
    using batch_same_state_only_migrates [OF h s] k by auto
qed
subsection \<open>C5: the event pushed on the data layer\<close>



subsection \<open>C2: one consolidated consent signal\<close>




subsection \<open>C6: revoking consent for a category with scripts\<close>



subsection \<open>C8: a requested-state object that omits a category\<close>

text \<open>
  Claim C8 says that no internal error escapes to the caller of the consent operations,
  whatever requested-state object is passed. For an object that omits a configured category
  the first pass reads \<^verbatim>\<open>undefined\<close> as the new state, which differs from every stored
  choice, and the second pass calls \<^verbatim>\<open>toString\<close> on it: the batch update throws a
  \<^verbatim>\<open>TypeError\<close> (in general by \<open>batch_throws_on_omitted_category\<close>), here for the
  empty object and one configured category.
\<close>

theorem batch_missing_category_throws:
  "batchUpdateConsents (managerOf [plainType ''analytics'']) (plainObject []) emptyWorld
     = Throws (TypeError ''Cannot read properties of undefined (reading 'toString')'') emptyWorld"
  by (simp add: run_defs example_defs fun_eq_iff)

subsection \<open>C4: the map of accepted consents\<close>

text \<open>
  Claim C4 says that every value of the map returned by \<open>getAcceptedConsents\<close> is a
  boolean, \<^verbatim>\<open>false\<close> standing for both a denied and an unset choice. The method stores
  what \<open>getConsentChoice\<close> returns, so a category without a stored choice is mapped to
  \<^verbatim>\<open>null\<close>.
\<close>

theorem accepted_map_holds_null_counterexample:
  "getAcceptedConsents (managerOf [plainType ''analytics'']) emptyWorld
     = Returns (plainObject [(''analytics'', Null)]) emptyWorld"
  by (simp add: getAcceptedConsents_def run_defs example_defs)

text \<open>
  Claim C4, amended. Let the category ids be unique or let no storage call throw. For every
  configured category whose id is not \<^verbatim>\<open>__proto__\<close>, the map returned by
  \<open>getAcceptedConsents\<close> holds, as a property of its own, the stored choice itself:
  \<^verbatim>\<open>true\<close> if and only if the choice is granted, \<^verbatim>\<open>false\<close> if and only if it is
  denied and \<^verbatim>\<open>null\<close> if and only if it is unset; the value is truthy exactly for a
  granted choice.
\<close>

theorem accepted_map_holds_stored_choice:
  assumes "healthy w \<or> distinct (map ct_id (consentTypes (cfg m)))"
  shows "\<exists>obj w'. getAcceptedConsents m w = Returns obj w' \<and>
           (\<forall>t\<in>set (consentTypes (cfg m)). ct_id t \<noteq> ''__proto__'' \<longrightarrow>
              map_of (ownProps obj) (ct_id t) = Some (storedChoice m w (ct_id t)) \<and>
              (getProp obj (ct_id t) = JBool True) = (storedChoice m w (ct_id t) = JBool True) \<and>
              (getProp obj (ct_id t) = JBool False) = (storedChoice m w (ct_id t) = JBool False) \<and>
              (getProp obj (ct_id t) = Null) = (storedChoice m w (ct_id t) = Null) \<and>
              truthy (getProp obj (ct_id t)) = (storedChoice m w (ct_id t) = JBool True))"
proof -
  obtain obj w' where r: "getAcceptedConsents m w = Returns obj w'"
    and mo: "\<forall>j. j \<noteq> ''__proto__'' \<longrightarrow> map_of (ownProps obj) j =
                   (if j \<in> ct_id ` set (consentTypes (cfg m)) then Some (storedChoice m w j)
                    else map_of (ownProps (plainObject [])) j)"
    using accepted_fold [OF assms, of m "plainObject []"] unfolding getAcceptedConsents_def by blast
  have "map_of (ownProps obj) (ct_id t) = Some (storedChoice m w (ct_id t)) \<and>
        (getProp obj (ct_id t) = JBool True) = (storedChoice m w (ct_id t) = JBool True) \<and>
        (getProp obj (ct_id t) = JBool False) = (storedChoice m w (ct_id t) = JBool False) \<and>
        (getProp obj (ct_id t) = Null) = (storedChoice m w (ct_id t) = Null) \<and>
        truthy (getProp obj (ct_id t)) = (storedChoice m w (ct_id t) = JBool True)"
    if "t \<in> set (consentTypes (cfg m))" and "ct_id t \<noteq> ''__proto__''" for t
  proof -
    have a: "map_of (ownProps obj) (ct_id t) = Some (storedChoice m w (ct_id t))"
      using mo that by simp
    have b: "getProp obj (ct_id t) = storedChoice m w (ct_id t)"
      using a by (rule getProp_own)
    show ?thesis
      unfolding b using a storedChoice_not_object [of m w "ct_id t"]
      by (cases "storedChoice m w (ct_id t)") auto
  qed
  then show ?thesis using r by blast
qed

theorem accepted_map_holds_stored_choice_witness:
  "\<exists>obj w'. getAcceptedConsents (managerOf [plainType ''analytics'']) grantedWorld = Returns obj w' \<and>
     map_of (ownProps obj) ''analytics'' = Some (JBool True) \<and> truthy (getProp obj ''analytics'')"
proof -
  let ?t = "plainType ''analytics''"
  let ?m = "managerOf [?t]"
  have h: "healthy grantedWorld \<or> distinct (map ct_id (consentTypes (cfg ?m)))"
    by (simp add: example_defs)
  have s: "storedChoice ?m grantedWorld ''analytics'' = JBool True"
    by (simp add: example_defs storedChoice_def readItem_def)
  have t: "?t \<in> set (consentTypes (cfg ?m)) \<and> ct_id ?t = ''analytics'' \<and>
           ct_id ?t \<noteq> ''__proto__''"
    by (simp add: example_defs)
  from accepted_map_holds_stored_choice [OF h] t
  obtain obj w' where "getAcceptedConsents ?m grantedWorld = Returns obj w'"
    and "map_of (ownProps obj) ''analytics'' = Some (storedChoice ?m grantedWorld ''analytics'')"
    and "truthy (getProp obj ''analytics'') = (storedChoice ?m grantedWorld ''analytics'' = JBool True)"
    by metis
  then show ?thesis using s by auto
qed

subsection \<open>C7: the states requested by accept all and reject all\<close>

lemma buildStates_untouched:
  "j \<noteq> ''__proto__'' \<Longrightarrow> j \<notin> ct_id ` set ts \<Longrightarrow>
   map_of (ownProps (fold (\<lambda>t consentStates.
             if ct_required t
             then setProp consentStates (ct_id t) (JBool True)
             else setProp consentStates (ct_id t) (JBool accepted)) ts acc)) j
     = map_of (ownProps acc) j"
  by (induction ts arbitrary: acc) (auto simp add: setProp_ownProps)

lemma buildStates_entry:
  "distinct (map ct_id ts) \<Longrightarrow> t \<in> set ts \<Longrightarrow> ct_id t \<noteq> ''__proto__'' \<Longrightarrow>
   map_of (ownProps (fold (\<lambda>t consentStates.
             if ct_required t
             then setProp consentStates (ct_id t) (JBool True)
             else setProp consentStates (ct_id t) (JBool accepted)) ts acc)) (ct_id t)
     = Some (if ct_required t then JBool True else JBool accepted)"
proof (induction ts arbitrary: acc)
  case Nil
  then show ?case by simp
next
  case (Cons x xs)
  show ?case
  proof (cases "t = x")
    case True
    have "ct_id x \<notin> ct_id ` set xs" using Cons.prems(1) by simp
    then show ?thesis
      using True Cons.prems(3) by (simp add: buildStates_untouched setProp_ownProps)
  next
    case False
    then have "t \<in> set xs" using Cons.prems(2) by simp
    moreover have "distinct (map ct_id xs)" using Cons.prems(1) by simp
    ultimately show ?thesis using Cons.IH Cons.prems(3) by simp
  qed
qed

text \<open>
  Claim C7 says that the requested-state object built by \<open>handleConsentChoice\<close> assigns
  \<^verbatim>\<open>true\<close> to every required category. The object is a plain object, and an assignment
  of a boolean to its key \<^verbatim>\<open>__proto__\<close> creates no entry: for a required category with
  that id the object stays empty, the batch update reads the inherited prototype object as
  the requested state, and reject all stores its string form as the choice.
\<close>

theorem accept_all_skips_proto_counterexample:
  "ct_required ((plainType ''__proto__'')\<lparr>ct_required := True\<rparr>) \<and>
   buildConsentStates [(plainType ''__proto__'')\<lparr>ct_required := True\<rparr>] False = plainObject [] \<and>
   getProp (buildConsentStates [(plainType ''__proto__'')\<lparr>ct_required := True\<rparr>] False) ''__proto__''
     = JObject ''[object Object]'' \<and>
   handleConsentChoice (managerOf [(plainType ''__proto__'')\<lparr>ct_required := True\<rparr>]) False emptyWorld
     = Returns ()
         (emptyWorld\<lparr>storage := [''stcm.hasConsented'' \<mapsto> ''1'',
                                  ''stcm.consent.__proto__'' \<mapsto> ''[object Object]''],
                     trace := [LsSet ''stcm.hasConsented'' ''1'',
                               LsSet ''stcm.consent.__proto__'' ''[object Object]'',
                               DataLayerPush ''stcm_consent_update'']\<rparr>)"
  by (simp add: handleConsentChoice_def buildConsentStates_def setHasConsented_def
      updateCheckboxState_def buildHasConsentedKey_def buildOldHasConsentedKey_def
      run_defs example_defs fun_eq_iff)

text \<open>
  Claim C7, amended. With unique category ids, the requested-state object that
  \<open>handleConsentChoice\<close> builds and hands to the batch update holds, for every configured
  category whose id is not \<^verbatim>\<open>__proto__\<close>, \<^verbatim>\<open>true\<close> if the category is required,
  whatever the argument is, and the argument itself otherwise.
\<close>

theorem accept_all_forces_required:
  assumes "distinct (map ct_id (consentTypes (cfg m)))"
  shows "(\<forall>t\<in>set (consentTypes (cfg m)). ct_id t \<noteq> ''__proto__'' \<longrightarrow>
            getProp (buildConsentStates (consentTypes (cfg m)) accepted) (ct_id t) =
              (if ct_required t then JBool True else JBool accepted)) \<and>
         handleConsentChoice m accepted =
           bnd (setHasConsented m) (\<lambda>_.
           bnd (batchUpdateConsents m (buildConsentStates (consentTypes (cfg m)) accepted)) (\<lambda>_.
           bnd (if accepted \<and> onAcceptAll (cfg m) \<noteq> None
                then callIfFunction (onAcceptAll (cfg m)) OnAcceptAll ''onAcceptAll''
                else if \<not> accepted \<and> onRejectAll (cfg m) \<noteq> None
                then callIfFunction (onRejectAll (cfg m)) OnRejectAll ''onRejectAll''
                else ret ()) (\<lambda>_.
           updateCheckboxState m)))"
proof -
  have "getProp (buildConsentStates (consentTypes (cfg m)) accepted) (ct_id t) =
          (if ct_required t then JBool True else JBool accepted)"
    if "t \<in> set (consentTypes (cfg m))" and "ct_id t \<noteq> ''__proto__''" for t
    unfolding buildConsentStates_def
    by (rule getProp_own) (rule buildStates_entry [OF assms that])
  then show ?thesis by (simp add: handleConsentChoice_def Let_def)
qed

theorem accept_all_forces_required_witness:
  "getProp (buildConsentStates [(plainType ''necessary'')\<lparr>ct_required := True\<rparr>, plainType ''analytics''] False)
     ''necessary'' = JBool True \<and>
   getProp (buildConsentStates [(plainType ''necessary'')\<lparr>ct_required := True\<rparr>, plainType ''analytics''] False)
     ''analytics'' = JBool False \<and>
   getProp (buildConsentStates [(plainType ''necessary'')\<lparr>ct_required := True\<rparr>, plainType ''analytics''] True)
     ''analytics'' = JBool True"
proof -
  let ?n = "(plainType ''necessary'')\<lparr>ct_required := True\<rparr>"
  let ?a = "plainType ''analytics''"
  let ?m = "managerOf [?n, ?a]"
  have d: "distinct (map ct_id (consentTypes (cfg ?m)))"
    by (simp add: example_defs)
  have c: "consentTypes (cfg ?m) = [?n, ?a]"
    by (simp add: example_defs)
  have i: "ct_id ?n = ''necessary'' \<and> ct_id ?a = ''analytics'' \<and> ct_required ?n \<and> \<not> ct_required ?a"
    by (simp add: plainType_def)
  show ?thesis
    using accept_all_forces_required [OF d, of False] accept_all_forces_required [OF d, of True]
    unfolding c by (simp add: i)
qed
end
